theory Spec2Isabelle
  imports Main "HOL-Library.Sublist"
begin

section \<open>JavaScript values\<close>

text \<open>
  The client is JavaScript: every value it reads from a response, from \<open>localStorage\<close> or
  from React state is dynamically typed. \<open>jsval\<close> is the fragment of the value space the
  modelled code meets: what \<open>JSON.parse\<close> produces, plus \<open>undefined\<close> (a missing
  property). \<open>JNum\<close> carries an integer-valued Number (identifiers, counts); fractional
  numbers do not occur in the modelled code paths; the integers are those a Number holds
  exactly and prints with all their digits (up to \<open>2^53\<close>), as identifiers are. An object
  is its list of own properties.
\<close>

datatype jsval =
    JUndefined
  | JNull
  | JBool bool
  | JNum int
  | JStr string
  | JArr "jsval list"
  | JObj "(string \<times> jsval) list"

text \<open>ToBoolean: what \<open>if (x)\<close>, \<open>!x\<close>, \<open>x && y\<close> and \<open>x || y\<close> test.\<close>

fun truthy :: "jsval \<Rightarrow> bool" where
  "truthy JUndefined = False"
| "truthy JNull = False"
| "truthy (JBool b) = b"
| "truthy (JNum n) = (n \<noteq> 0)"
| "truthy (JStr s) = (s \<noteq> [])"
| "truthy (JArr xs) = True"
| "truthy (JObj kvs) = True"

text \<open>\<open>a || b\<close> and \<open>a && b\<close> on values (both return one of their operands).\<close>

definition js_or :: "jsval \<Rightarrow> jsval \<Rightarrow> jsval" where
  "js_or a b = (if truthy a then a else b)"

definition js_and :: "jsval \<Rightarrow> jsval \<Rightarrow> jsval" where
  "js_and a b = (if truthy a then b else a)"

text \<open>
  \<open>x?.k\<close> for a property name \<open>k\<close> that no primitive or array carries: the own property
  of an object, \<open>undefined\<close> for everything else (also for \<open>null\<close> and \<open>undefined\<close>,
  which is what the optional chaining is for).
\<close>

fun opt_prop :: "jsval \<Rightarrow> string \<Rightarrow> jsval" where
  "opt_prop (JObj kvs) k = (case map_of kvs k of Some v \<Rightarrow> v | None \<Rightarrow> JUndefined)"
| "opt_prop v k = JUndefined"

text \<open>Decimal digits of a natural number, as \<open>Number.prototype.toString\<close> prints them.\<close>

fun dec_nat :: "nat \<Rightarrow> string" where
  "dec_nat n = (if n < 10 then [char_of (48 + n)] else dec_nat (n div 10) @ [char_of (48 + n mod 10)])"

definition dec_int :: "int \<Rightarrow> string" where
  "dec_int i = (if i < 0 then CHR ''-'' # dec_nat (nat (- i)) else dec_nat (nat i))"

fun join_comma :: "string list \<Rightarrow> string" where
  "join_comma [] = []"
| "join_comma [s] = s"
| "join_comma (s # t # ss) = s @ CHR '','' # join_comma (t # ss)"

text \<open>
  \<open>String(x)\<close>: ToString. An array prints its elements joined by commas, with
  \<open>null\<close> and \<open>undefined\<close> elements printed as the empty string; a plain object prints
  as \<open>[object Object]\<close>.
\<close>

fun js_String :: "jsval \<Rightarrow> string" where
  "js_String JUndefined = ''undefined''"
| "js_String JNull = ''null''"
| "js_String (JBool b) = (if b then ''true'' else ''false'')"
| "js_String (JNum n) = dec_int n"
| "js_String (JStr s) = s"
| "js_String (JArr xs) =
     join_comma (map (\<lambda>x. if x = JUndefined \<or> x = JNull then [] else js_String x) xs)"
| "js_String (JObj kvs) = ''[object Object]''"

text \<open>
  \<open>Array.prototype.includes\<close> compares with SameValueZero: primitives by value, arrays and
  objects by reference. A value that came out of a response or out of storage is never the
  same reference as an element of an array literal in the source, so objects and arrays
  compare unequal here.
\<close>

fun same_value_zero :: "jsval \<Rightarrow> jsval \<Rightarrow> bool" where
  "same_value_zero (JArr xs) b = False"
| "same_value_zero (JObj kvs) b = False"
| "same_value_zero a b = (a = b)"

definition js_includes :: "jsval list \<Rightarrow> jsval \<Rightarrow> bool" where
  "js_includes xs x = list_ex (\<lambda>y. same_value_zero y x) xs"

section \<open>The vehicle owner's dashboard (frontend-clean, \<open>pages/UserDashboard.jsx\<close>)\<close>

subsection \<open>Data and collaborators\<close>

text \<open>
  The properties of a violation and of a challan that the dashboard's logic reads. HOL's
  \<open>id\<close> is taken, so the \<open>id\<close> property is \<open>id_v\<close> on a violation and \<open>id_c\<close> on a
  challan; a property the response does not carry is \<open>JUndefined\<close>.
\<close>

record violation =
  id_v :: jsval

record challan =
  id_c :: jsval
  violation_id :: jsval
  status :: jsval
  meta :: jsval

text \<open>
  The REST backend is outside the repository. \<open>api\<close> (\<open>utils/api.js\<close>) only forwards to
  it, so the backend is a parameter: each call takes the server's state and returns the
  settled promise (\<open>Inl\<close> the rejection value, \<open>Inr\<close> the part of \<open>res.data\<close> the caller
  reads) with the server's next state. \<open>listChallans\<close> answers \<open>None\<close> when
  \<open>res.data.challans\<close> is missing.
\<close>

record 'srv api =
  createChallanFromViolation :: "jsval \<Rightarrow> 'srv \<Rightarrow> (jsval + unit) \<times> 'srv"
  listChallans :: "'srv \<Rightarrow> (jsval + challan list option) \<times> 'srv"
  payChallan :: "jsval \<Rightarrow> 'srv \<Rightarrow> (jsval + unit) \<times> 'srv"

datatype request =
    PostFromViolation jsval
  | GetChallans
  | PostPay jsval

text \<open>
  What can be observed of a run from outside the component: a request leaving
  (\<open>Sent\<close>), its promise settling (\<open>Settled\<close>, \<open>True\<close> when fulfilled), in the order they
  happen, and the values handed to \<open>console.error\<close>.
\<close>

datatype event = Sent request | Settled request bool

record 'srv world =
  server :: 'srv
  wire :: "event list"
  console :: "jsval list"

text \<open>
  The component's state: the \<open>useState\<close> cells the modelled functions read or write, and
  the \<open>hasSyncedRef\<close> ref.
\<close>

record dashboard =
  challans :: "challan list"
  violations :: "violation list"
  error :: jsval
  actionError :: jsval
  hasSyncedRef :: bool

text \<open>\<open>await api.f(...)\<close>: the request leaves, the caller is suspended until it settles.\<close>

definition await_call ::
  "request \<Rightarrow> ('srv \<Rightarrow> (jsval + 'a) \<times> 'srv) \<Rightarrow> 'srv world \<Rightarrow> (jsval + 'a) \<times> 'srv world" where
  "await_call r f w =
     (case f (server w) of
        (res, s') \<Rightarrow>
          (res, w\<lparr>server := s', wire := wire w @ [Sent r, Settled r (\<not> isl res)]\<rparr>))"

text \<open>
  The message of a failed call: \<open>err?.response?.data?.message || err?.response?.data?.detail
  || fallback\<close>.
\<close>

definition error_message :: "jsval \<Rightarrow> string \<Rightarrow> jsval" where
  "error_message err fallback =
     (let d = opt_prop (opt_prop err ''response'') ''data''
      in js_or (opt_prop d ''message'') (js_or (opt_prop d ''detail'') (JStr fallback)))"

subsection \<open>\<open>loadChallans\<close>\<close>

text \<open>
  \<^verbatim>\<open>
  const loadChallans = async () => {
    try {
      const res = await api.listChallans();
      setChallans(res.data.challans || []);
    } catch (err) {
      const msg = err?.response?.data?.message || err?.response?.data?.detail
        || "Failed to load challans";
      setError(msg);
    }
  };
  \<close>
  The promise it returns is always fulfilled: the only call that can reject is inside the
  \<open>try\<close>.
\<close>

definition loadChallans ::
  "'srv api \<Rightarrow> dashboard \<times> 'srv world \<Rightarrow> (jsval + unit) \<times> dashboard \<times> 'srv world" where
  "loadChallans A dw =
     (case dw of (d, w) \<Rightarrow>
        (case await_call GetChallans (listChallans A) w of
           (Inr cs, w') \<Rightarrow>
             (Inr (), d\<lparr>challans := (case cs of Some l \<Rightarrow> l | None \<Rightarrow> [])\<rparr>, w')
         | (Inl err, w') \<Rightarrow>
             (Inr (), d\<lparr>error := error_message err ''Failed to load challans''\<rparr>, w')))"

subsection \<open>\<open>syncChallansFromViolations\<close>\<close>

text \<open>
  \<^verbatim>\<open>
  const syncChallansFromViolations = async () => {
    if (!vehicleNumber || hasSyncedRef.current) return;
    // Avoid duplicate challans: only create for violations without an existing challan.
    const existingViolationIds = new Set(challans.map((c) => String(c.violation_id)));
    const toCreate = violations.filter((v) => !existingViolationIds.has(String(v.id)));
    if (!toCreate.length) return;
    try {
      for (const v of toCreate) {
        await api.createChallanFromViolation({ violation_id: v.id });
      }
      hasSyncedRef.current = true;
      await loadChallans();
    } catch (err) {
      // Non-fatal: user can still see violations even if challan sync fails.
      console.error("Failed to auto-create challans from violations", err);
    }
  };
  \<close>
\<close>

definition existingViolationIds :: "challan list \<Rightarrow> string set" where
  "existingViolationIds cs = set (map (\<lambda>c. js_String (violation_id c)) cs)"

definition toCreate :: "challan list \<Rightarrow> violation list \<Rightarrow> violation list" where
  "toCreate cs vs = filter (\<lambda>v. js_String (id_v v) \<notin> existingViolationIds cs) vs"

text \<open>
  The \<open>for\<close> loop with its \<open>await\<close>: a rejected request throws out of the loop, so the
  violations after it are not visited.
\<close>

fun create_loop :: "'srv api \<Rightarrow> violation list \<Rightarrow> 'srv world \<Rightarrow> (jsval + unit) \<times> 'srv world" where
  "create_loop A [] w = (Inr (), w)"
| "create_loop A (v # vs) w =
     (case await_call (PostFromViolation (id_v v)) (createChallanFromViolation A (id_v v)) w of
        (Inl err, w') \<Rightarrow> (Inl err, w')
      | (Inr u, w') \<Rightarrow> create_loop A vs w')"

text \<open>The body of the \<open>try\<close> block: the loop, then the flag, then the reload.\<close>

definition sync_try ::
  "'srv api \<Rightarrow> violation list \<Rightarrow> dashboard \<times> 'srv world \<Rightarrow> (jsval + unit) \<times> dashboard \<times> 'srv world" where
  "sync_try A vs dw =
     (case dw of (d, w) \<Rightarrow>
        (case create_loop A vs w of
           (Inl err, w') \<Rightarrow> (Inl err, d, w')
         | (Inr u, w') \<Rightarrow> loadChallans A (d\<lparr>hasSyncedRef := True\<rparr>, w')))"

text \<open>
  The whole function. \<open>vehicleNumber\<close> comes from the auth context. The first component of
  the result is the settled promise of the \<open>async\<close> function: \<open>Inl\<close> would be a rejection
  reaching the caller.
\<close>

definition syncChallansFromViolations ::
  "'srv api \<Rightarrow> jsval \<Rightarrow> dashboard \<times> 'srv world \<Rightarrow> (jsval + unit) \<times> dashboard \<times> 'srv world" where
  "syncChallansFromViolations A vehicleNumber dw =
     (case dw of (d, w) \<Rightarrow>
        if \<not> truthy vehicleNumber \<or> hasSyncedRef d then (Inr (), d, w)
        else
          (let todo = toCreate (challans d) (violations d)
           in if todo = [] then (Inr (), d, w)
              else
                (case sync_try A todo (d, w) of
                   (Inl err, d', w') \<Rightarrow> (Inr (), d', w'\<lparr>console := console w' @ [err]\<rparr>)
                 | (Inr u, d', w') \<Rightarrow> (Inr (), d', w'))))"

subsection \<open>Reading the wire\<close>

text \<open>
  The events a run added to the wire, the identifiers of the creation requests among
  them, the creation requests that were rejected, and the pay requests.
\<close>

definition new_events :: "'srv world \<Rightarrow> 'srv world \<Rightarrow> event list" where
  "new_events w w' = drop (length (wire w)) (wire w')"

fun sent_creates :: "event list \<Rightarrow> jsval list" where
  "sent_creates [] = []"
| "sent_creates (Sent (PostFromViolation x) # es) = x # sent_creates es"
| "sent_creates (e # es) = sent_creates es"

fun failed_creates :: "event list \<Rightarrow> jsval list" where
  "failed_creates [] = []"
| "failed_creates (Settled (PostFromViolation x) False # es) = x # failed_creates es"
| "failed_creates (e # es) = failed_creates es"

fun sent_pays :: "event list \<Rightarrow> jsval list" where
  "sent_pays [] = []"
| "sent_pays (Sent (PostPay x) # es) = x # sent_pays es"
| "sent_pays (e # es) = sent_pays es"

text \<open>
  Requests are sequential when each one settles before the next one leaves: the wire is
  a chain of pairs \<open>Sent r, Settled r b\<close>.
\<close>

fun sequential :: "event list \<Rightarrow> bool" where
  "sequential [] = True"
| "sequential (Sent r # Settled r' b # es) = (r = r' \<and> sequential es)"
| "sequential es = False"

text \<open>
  The wire of a run of creation requests that were all fulfilled, one pair per violation.
\<close>

definition fulfilled_creates :: "violation list \<Rightarrow> event list" where
  "fulfilled_creates vs =
     concat (map (\<lambda>v. [Sent (PostFromViolation (id_v v)),
                        Settled (PostFromViolation (id_v v)) True]) vs)"

subsection \<open>A scripted backend\<close>

text \<open>
  A backend to run the dashboard against: its state is the challan table; it rejects the
  creation requests for the violations listed in \<open>failing\<close> and serves every other request.
\<close>

definition scripted_backend :: "jsval list \<Rightarrow> (challan list) api" where
  "scripted_backend failing =
     \<lparr> createChallanFromViolation =
         (\<lambda>x s. if x \<in> set failing then (Inl (JStr ''rejected''), s)
                else (Inr (),
                      s @ [\<lparr>id_c = JNum (int (length s) + 1), violation_id = x,
                            status = JStr ''unpaid'', meta = JUndefined\<rparr>])),
       listChallans = (\<lambda>s. (Inr (Some s), s)),
       payChallan =
         (\<lambda>x s. (Inr (), map (\<lambda>c. if id_c c = x then c\<lparr>status := JStr ''paid''\<rparr> else c) s)) \<rparr>"

definition fresh_dashboard :: "challan list \<Rightarrow> violation list \<Rightarrow> dashboard" where
  "fresh_dashboard cs vs =
     \<lparr>challans = cs, violations = vs, error = JStr [], actionError = JStr [],
      hasSyncedRef = False\<rparr>"

definition quiet_world :: "'srv \<Rightarrow> 'srv world" where
  "quiet_world s = \<lparr>server = s, wire = [], console = []\<rparr>"

subsection \<open>The challan cards and the pay button\<close>

text \<open>
  \<^verbatim>\<open>
  {challans.map((c) => {
    const imgPath = c.meta?.snapshot_path;
    ...
        {imgPath && (<CardMedia ... image={imgPath.startsWith("/snapshots") ? ... } />)}
        ...
        <Chip label={c.status.toUpperCase()} color={statusColor} size="small" />
        ...
        <Button size="small" variant="contained"
          disabled={c.status === "paid"}
          onClick={() => handlePay(c.id)}>
          {c.status === "paid" ? "Paid" : "Pay Challan"}
        </Button>
  \<close>
  (the same text in \<open>frontend/src/pages/UserDashboard.jsx\<close>). Of a card, the model keeps the
  button, and the two method calls that can throw while the list is mapped: a TypeError
  when \<open>imgPath\<close> is truthy and has no \<open>startsWith\<close>, or \<open>c.status\<close> has no
  \<open>toUpperCase\<close> (both are methods of strings only). A render that throws shows no card;
  React also refuses an object as a child (\<open>c.id\<close>, \<open>c.violation_type\<close>), which only makes
  more renders show no card.
\<close>

definition TypeError :: jsval where
  "TypeError = JObj [(''name'', JStr ''TypeError'')]"

fun is_string :: "jsval \<Rightarrow> bool" where
  "is_string (JStr s) = True"
| "is_string v = False"

record button =
  disabled :: bool
  label :: string
  onClick :: jsval

definition render_card :: "challan \<Rightarrow> jsval + button" where
  "render_card c =
     (let imgPath = opt_prop (meta c) ''snapshot_path''
      in if truthy imgPath \<and> \<not> is_string imgPath then Inl TypeError
         else if \<not> is_string (status c) then Inl TypeError
         else Inr \<lparr>disabled = (status c = JStr ''paid''),
                   label = (if status c = JStr ''paid'' then ''Paid'' else ''Pay Challan''),
                   onClick = id_c c\<rparr>)"

fun render_cards :: "challan list \<Rightarrow> jsval + button list" where
  "render_cards [] = Inr []"
| "render_cards (c # cs) =
     (case render_card c of
        Inl e \<Rightarrow> Inl e
      | Inr b \<Rightarrow> (case render_cards cs of Inl e \<Rightarrow> Inl e | Inr bs \<Rightarrow> Inr (b # bs)))"

text \<open>
  \<^verbatim>\<open>
  const handlePay = async (challanId) => {
    setActionError("");
    try {
      await api.payChallan(challanId);
      await loadChallans();
    } catch (err) {
      const msg = err?.response?.data?.message || err?.response?.data?.detail
        || "Failed to process payment";
      setActionError(msg);
    }
  };
  \<close>
\<close>

definition handlePay ::
  "'srv api \<Rightarrow> jsval \<Rightarrow> dashboard \<times> 'srv world \<Rightarrow> (jsval + unit) \<times> dashboard \<times> 'srv world" where
  "handlePay A challanId dw =
     (case dw of (d, w) \<Rightarrow>
        (let d1 = d\<lparr>actionError := JStr []\<rparr>
         in case await_call (PostPay challanId) (payChallan A challanId) w of
              (Inl err, w') \<Rightarrow>
                (Inr (), d1\<lparr>actionError := error_message err ''Failed to process payment''\<rparr>, w')
            | (Inr u, w') \<Rightarrow> loadChallans A (d1, w')))"

text \<open>
  A click on the button of card \<open>k\<close> of the current render. The browser dispatches no
  click to a disabled button; otherwise the handler runs with the identifier the render
  closed over. Nothing happens when the render threw or there is no such card.
\<close>

definition click_pay ::
  "'srv api \<Rightarrow> nat \<Rightarrow> dashboard \<times> 'srv world \<Rightarrow> (jsval + unit) \<times> dashboard \<times> 'srv world" where
  "click_pay A k dw =
     (case dw of (d, w) \<Rightarrow>
        (case render_cards (challans d) of
           Inl e \<Rightarrow> (Inr (), d, w)
         | Inr bs \<Rightarrow>
             if k < length bs \<and> \<not> disabled (bs ! k) then handlePay A (onClick (bs ! k)) (d, w)
             else (Inr (), d, w)))"

section \<open>The authorization guard\<close>

text \<open>
  What a guard renders: its children, a redirect, or (frontend-spa only) the loading
  placeholder.
\<close>

datatype decision = Children | Navigate string | LoadingPlaceholder

text \<open>
  frontend-clean, \<open>components/ProtectedRoute.jsx\<close> (the same text in
  \<open>frontend/src/components/ProtectedRoute.jsx\<close>):
  \<^verbatim>\<open>
  function ProtectedRoute({ children, allowedRoles }) {
    const { isAuthenticated, role } = useAuth();
    if (!isAuthenticated) { return <Navigate to="/login" replace />; }
    if (allowedRoles && !allowedRoles.includes(role)) {
      return <Navigate to="/dashboard" replace />;
    }
    return children;
  }
  \<close>
  with, from the auth context,
  \<open>isAuthenticated: Boolean(accessToken && user)\<close> and \<open>role: user?.role || "public"\<close>.
  The prop \<open>allowedRoles\<close> is \<open>None\<close> when the route does not pass it.
\<close>

definition isAuthenticated :: "jsval \<Rightarrow> jsval \<Rightarrow> bool" where
  "isAuthenticated accessToken user = truthy (js_and accessToken user)"

definition role :: "jsval \<Rightarrow> jsval" where
  "role user = js_or (opt_prop user ''role'') (JStr ''public'')"

definition ProtectedRoute :: "jsval \<Rightarrow> jsval \<Rightarrow> jsval list option \<Rightarrow> decision" where
  "ProtectedRoute accessToken user allowedRoles =
     (if \<not> isAuthenticated accessToken user then Navigate ''/login''
      else
        (case allowedRoles of
           None \<Rightarrow> Children
         | Some rs \<Rightarrow> if \<not> js_includes rs (role user) then Navigate ''/dashboard'' else Children))"

text \<open>
  frontend-spa, \<open>App.jsx\<close>:
  \<^verbatim>\<open>
  function ProtectedRoute({ children, allowedRoles = [] }) {
    const { user, loading } = useAuth()
    if (loading) { return (<div ...>Loading...</div>) }
    if (!user) { return <Navigate to="/login" replace /> }
    if (allowedRoles.length > 0 && !allowedRoles.includes(user.role)) {
      return <Navigate to="/" replace />
    }
    return children
  }
  \<close>
\<close>

definition ProtectedRoute_spa :: "jsval \<Rightarrow> bool \<Rightarrow> jsval list option \<Rightarrow> decision" where
  "ProtectedRoute_spa user loading allowedRoles =
     (let rs = (case allowedRoles of None \<Rightarrow> [] | Some xs \<Rightarrow> xs)
      in if loading then LoadingPlaceholder
         else if \<not> truthy user then Navigate ''/login''
         else if length rs > 0 \<and> \<not> js_includes rs (opt_prop user ''role'') then Navigate ''/''
         else Children)"

section \<open>The session store\<close>

text \<open>
  \<open>JSON.parse\<close> and \<open>JSON.stringify\<close> belong to the runtime, so the session stores take
  them as a parameter: \<open>parse\<close> answers \<open>None\<close> where \<open>JSON.parse\<close> throws a SyntaxError.
  \<open>localStorage\<close> is a map from keys to strings (\<open>getItem\<close> answers \<open>null\<close> for a key
  that is not there).
\<close>

record JSON =
  parse :: "string \<Rightarrow> jsval option"
  stringify :: "jsval \<Rightarrow> string"

definition nullish :: "jsval \<Rightarrow> bool" where
  "nullish v = (v = JUndefined \<or> v = JNull)"

text \<open>
  The dependency check of \<open>useEffect\<close> and the bail-out of a state setter compare with
  \<open>Object.is\<close>: an object handed to a setter is a new reference, hence a change.
\<close>

definition changed :: "jsval \<Rightarrow> jsval \<Rightarrow> bool" where
  "changed new old = (\<not> same_value_zero new old)"

subsection \<open>frontend-clean, \<open>state/AuthContext.jsx\<close>\<close>

text \<open>
  \<^verbatim>\<open>
  const STORAGE_KEY = "tv_auth";

  function readStoredAuth() {
    try {
      const raw = localStorage.getItem(STORAGE_KEY);
      if (!raw) return null;
      return JSON.parse(raw);
    } catch {
      return null;
    }
  }

  function writeStoredAuth(data) {
    if (!data) {
      localStorage.removeItem(STORAGE_KEY);
      return;
    }
    localStorage.setItem(STORAGE_KEY, JSON.stringify(data));
  }
  \<close>
\<close>

definition STORAGE_KEY :: string where
  "STORAGE_KEY = ''tv_auth''"

definition readStoredAuth :: "JSON \<Rightarrow> (string \<rightharpoonup> string) \<Rightarrow> jsval" where
  "readStoredAuth J ls =
     (case ls STORAGE_KEY of
        None \<Rightarrow> JNull
      | Some raw \<Rightarrow>
          if raw = [] then JNull
          else (case parse J raw of None \<Rightarrow> JNull | Some v \<Rightarrow> v))"

definition writeStoredAuth :: "JSON \<Rightarrow> jsval \<Rightarrow> (string \<rightharpoonup> string) \<Rightarrow> (string \<rightharpoonup> string)" where
  "writeStoredAuth J data ls =
     (if \<not> truthy data then ls(STORAGE_KEY := None)
      else ls(STORAGE_KEY \<mapsto> stringify J data))"

text \<open>
  The provider's three state cells, and what lives outside React: the storage and the
  token held by the \<open>api\<close> client (\<open>api.setToken\<close>).
\<close>

record auth =
  accessToken :: jsval
  user :: jsval
  vehicleNumber :: jsval

record browser =
  localStorage :: "string \<rightharpoonup> string"
  api_accessToken :: jsval

definition initial_auth :: auth where
  "initial_auth = \<lparr>accessToken = JNull, user = JNull, vehicleNumber = JStr []\<rparr>"

text \<open>
  \<^verbatim>\<open>
  useEffect(() => {
    const stored = readStoredAuth();
    if (stored?.accessToken && stored?.user) {
      setAccessToken(stored.accessToken);
      setUser(stored.user);
      setVehicleNumber(stored.vehicleNumber || "");
    }
  }, []);
  \<close>
  The effect answers the state its setters ask for, \<open>None\<close> when it calls none.
\<close>

definition restore_effect :: "JSON \<Rightarrow> browser \<Rightarrow> auth option" where
  "restore_effect J br =
     (let stored = readStoredAuth J (localStorage br)
      in if truthy (js_and (opt_prop stored ''accessToken'') (opt_prop stored ''user''))
         then Some \<lparr>accessToken = opt_prop stored ''accessToken'',
                    user = opt_prop stored ''user'',
                    vehicleNumber = js_or (opt_prop stored ''vehicleNumber'') (JStr [])\<rparr>
         else None)"

text \<open>
  \<^verbatim>\<open>
  useEffect(() => {
    if (accessToken && user) {
      writeStoredAuth({ accessToken, user, vehicleNumber });
    } else {
      writeStoredAuth(null);
    }
  }, [accessToken, user, vehicleNumber]);

  useEffect(() => {
    api.setToken(accessToken || null);
  }, [accessToken]);
  \<close>
\<close>

definition stored_record :: "auth \<Rightarrow> jsval" where
  "stored_record st =
     JObj [(''accessToken'', accessToken st), (''user'', user st),
           (''vehicleNumber'', vehicleNumber st)]"

definition persist_effect :: "JSON \<Rightarrow> auth \<Rightarrow> browser \<Rightarrow> browser" where
  "persist_effect J st br =
     (if truthy (js_and (accessToken st) (user st))
      then br\<lparr>localStorage := writeStoredAuth J (stored_record st) (localStorage br)\<rparr>
      else br\<lparr>localStorage := writeStoredAuth J JNull (localStorage br)\<rparr>)"

definition token_effect :: "auth \<Rightarrow> browser \<Rightarrow> browser" where
  "token_effect st br = br\<lparr>api_accessToken := js_or (accessToken st) JNull\<rparr>"

text \<open>
  A re-render from state \<open>old\<close> to state \<open>new\<close>: the effects whose dependencies changed
  run again, in the order they are declared.
\<close>

definition commit :: "JSON \<Rightarrow> auth \<Rightarrow> auth \<Rightarrow> browser \<Rightarrow> auth \<times> browser" where
  "commit J old new br =
     (let br1 = (if changed (accessToken new) (accessToken old) \<or> changed (user new) (user old)
                    \<or> changed (vehicleNumber new) (vehicleNumber old)
                 then persist_effect J new br else br);
          br2 = (if changed (accessToken new) (accessToken old) then token_effect new br1 else br1)
      in (new, br2))"

text \<open>
  Mounting the provider, which is what a page load does (\<open>restore()\<close> of the
  specification): the first render has the initial state; its effects run in order, the
  restoring effect reading the storage before the persisting effect, which still sees
  the initial state, removes the record; the state the restoring effect asked for is then
  rendered and persisted again.
\<close>

definition AuthProvider_mount :: "JSON \<Rightarrow> browser \<Rightarrow> auth \<times> browser" where
  "AuthProvider_mount J br =
     (let br1 = token_effect initial_auth (persist_effect J initial_auth br)
      in case restore_effect J br of
           None \<Rightarrow> (initial_auth, br1)
         | Some st \<Rightarrow> commit J initial_auth st br1)"

text \<open>
  \<^verbatim>\<open>
  const login = (payload, opts = {}) => {
    setAccessToken(payload.access_token);
    setUser(payload.user);
    if (opts.vehicleNumber) {
      setVehicleNumber(opts.vehicleNumber);
    }
  };

  const logout = () => {
    setAccessToken(null);
    setUser(null);
    setVehicleNumber("");
  };
  \<close>
  Reading a property of \<open>null\<close> or \<open>undefined\<close> throws a TypeError; the setters called
  before the throw keep their effect. The setters called by one handler are applied in one
  re-render (React 18 batches them).
\<close>

definition login ::
  "JSON \<Rightarrow> jsval \<Rightarrow> jsval \<Rightarrow> auth \<times> browser \<Rightarrow> (jsval + unit) \<times> auth \<times> browser" where
  "login J payload opts sb =
     (case sb of (st, br) \<Rightarrow>
        if nullish payload then (Inl TypeError, st, br)
        else
          (let st1 = st\<lparr>accessToken := opt_prop payload ''access_token'',
                        user := opt_prop payload ''user''\<rparr>;
               opts' = (if opts = JUndefined then JObj [] else opts)
           in if opts' = JNull then (Inl TypeError, commit J st st1 br)
              else if truthy (opt_prop opts' ''vehicleNumber'')
              then (Inr (), commit J st (st1\<lparr>vehicleNumber := opt_prop opts' ''vehicleNumber''\<rparr>) br)
              else (Inr (), commit J st st1 br)))"

definition logout :: "JSON \<Rightarrow> auth \<times> browser \<Rightarrow> auth \<times> browser" where
  "logout J sb = (case sb of (st, br) \<Rightarrow> commit J st initial_auth br)"

text \<open>
  The life of a session: page loads, logins (\<open>LoginPage\<close> and \<open>RegisterPage\<close> call
  \<open>login(res.data, {vehicleNumber})\<close> and catch what it throws) and logouts. A page load
  starts a new JavaScript heap, so the \<open>api\<close> client's token starts as \<open>null\<close>.
\<close>

datatype auth_op = Reload | Login jsval jsval | Logout

fun auth_step :: "JSON \<Rightarrow> auth \<times> browser \<Rightarrow> auth_op \<Rightarrow> auth \<times> browser" where
  "auth_step J (st, br) Reload = AuthProvider_mount J (br\<lparr>api_accessToken := JNull\<rparr>)"
| "auth_step J (st, br) (Login payload opts) = snd (login J payload opts (st, br))"
| "auth_step J (st, br) Logout = logout J (st, br)"

definition auth_run :: "JSON \<Rightarrow> auth_op list \<Rightarrow> auth \<times> browser \<Rightarrow> auth \<times> browser" where
  "auth_run J ops sb = foldl (auth_step J) sb ops"

text \<open>A login whose response carries both a token and a user, as \<open>/auth/login\<close> answers.\<close>

fun carries_both :: "auth_op \<Rightarrow> bool" where
  "carries_both (Login payload opts) =
     (truthy (opt_prop payload ''access_token'') \<and> truthy (opt_prop payload ''user''))"
| "carries_both op = True"

subsection \<open>frontend-spa, \<open>contexts/AuthContext.jsx\<close>\<close>

text \<open>
  This provider keeps the identity in React state (\<open>user\<close>, \<open>loading\<close>; prefixed here, the
  names being taken) and the credential in the default \<open>Authorization\<close> header of the
  \<open>api\<close> client; the persisted record is split over the keys \<open>access_token\<close>,
  \<open>refresh_token\<close> and \<open>user\<close>.
  \<^verbatim>\<open>
  useEffect(() => {
    // Check for stored token on mount
    const token = localStorage.getItem('access_token')
    const userData = localStorage.getItem('user')
    if (token && userData) {
      try {
        setUser(JSON.parse(userData))
        api.defaults.headers.common['Authorization'] = `Bearer ${token}`
      } catch (e) {
        localStorage.removeItem('access_token')
        localStorage.removeItem('refresh_token')
        localStorage.removeItem('user')
      }
    }
    setLoading(false)
  }, [])
  \<close>
\<close>

record spa_auth =
  spa_user :: jsval
  spa_loading :: bool

record spa_browser =
  spa_localStorage :: "string \<rightharpoonup> string"
  authorization :: "string option"

definition spa_initial :: spa_auth where
  "spa_initial = \<lparr>spa_user = JNull, spa_loading = True\<rparr>"

definition spa_purge :: "(string \<rightharpoonup> string) \<Rightarrow> (string \<rightharpoonup> string)" where
  "spa_purge ls = ls(''access_token'' := None, ''refresh_token'' := None, ''user'' := None)"

definition spa_mount :: "JSON \<Rightarrow> spa_browser \<Rightarrow> spa_auth \<times> spa_browser" where
  "spa_mount J br =
     (case (spa_localStorage br ''access_token'', spa_localStorage br ''user'') of
        (Some token, Some userData) \<Rightarrow>
          if token \<noteq> [] \<and> userData \<noteq> [] then
            (case parse J userData of
               Some u \<Rightarrow>
                 (\<lparr>spa_user = u, spa_loading = False\<rparr>,
                  br\<lparr>authorization := Some (''Bearer '' @ token)\<rparr>)
             | None \<Rightarrow>
                 (\<lparr>spa_user = JNull, spa_loading = False\<rparr>,
                  br\<lparr>spa_localStorage := spa_purge (spa_localStorage br)\<rparr>))
          else (\<lparr>spa_user = JNull, spa_loading = False\<rparr>, br)
      | _ \<Rightarrow> (\<lparr>spa_user = JNull, spa_loading = False\<rparr>, br))"

text \<open>
  \<^verbatim>\<open>
  const login = async (email, password) => {
    try {
      const response = await api.post('/auth/login', { email, password })
      const { user: userData, access_token, refresh_token } = response.data
      localStorage.setItem('access_token', access_token)
      localStorage.setItem('refresh_token', refresh_token)
      localStorage.setItem('user', JSON.stringify(userData))
      api.defaults.headers.common['Authorization'] = `Bearer ${access_token}`
      setUser(userData)
      return { success: true }
    } catch (error) {
      return { success: false, error: error.response?.data?.message || 'Login failed' }
    }
  }
  \<close>
  (\<open>register\<close> has the same body after its own request). The argument is the settled
  request: \<open>Inl\<close> the rejection, \<open>Inr\<close> the \<open>response.data\<close>. \<open>setItem\<close> stores the
  string of its argument, and \<open>JSON.stringify(undefined)\<close> is \<open>undefined\<close>. The first
  component of the result is the settled promise of \<open>login\<close>: \<open>Inr\<close> the \<open>success\<close> it
  returns, or \<open>Inl\<close> the TypeError that \<open>error.response\<close> throws inside the \<open>catch\<close> when
  the rejection value is \<open>null\<close> or \<open>undefined\<close>. Destructuring a \<open>response.data\<close> that is
  \<open>null\<close> or \<open>undefined\<close> throws inside the \<open>try\<close>, which the \<open>catch\<close> turns into a
  failure.
\<close>

definition spa_login ::
  "JSON \<Rightarrow> jsval + jsval \<Rightarrow> spa_auth \<times> spa_browser \<Rightarrow> (jsval + bool) \<times> spa_auth \<times> spa_browser" where
  "spa_login J response sb =
     (case sb of (st, br) \<Rightarrow>
        (case response of
           Inl err \<Rightarrow> (if nullish err then Inl TypeError else Inr False, st, br)
         | Inr data \<Rightarrow>
             if nullish data then (Inr False, st, br)
             else
               (let userData = opt_prop data ''user'';
                    access_token = opt_prop data ''access_token'';
                    refresh_token = opt_prop data ''refresh_token'';
                    ls = (spa_localStorage br)
                           (''access_token'' \<mapsto> js_String access_token,
                            ''refresh_token'' \<mapsto> js_String refresh_token,
                            ''user'' \<mapsto> (if userData = JUndefined then ''undefined''
                                         else stringify J userData))
                in (Inr True, st\<lparr>spa_user := userData\<rparr>,
                    br\<lparr>spa_localStorage := ls,
                       authorization := Some (''Bearer '' @ js_String access_token)\<rparr>))))"

text \<open>
  \<^verbatim>\<open>
  const logout = () => {
    localStorage.removeItem('access_token')
    localStorage.removeItem('refresh_token')
    localStorage.removeItem('user')
    delete api.defaults.headers.common['Authorization']
    setUser(null)
  }
  \<close>
\<close>

definition spa_logout :: "spa_auth \<times> spa_browser \<Rightarrow> spa_auth \<times> spa_browser" where
  "spa_logout sb =
     (case sb of (st, br) \<Rightarrow>
        (st\<lparr>spa_user := JNull\<rparr>,
         br\<lparr>spa_localStorage := spa_purge (spa_localStorage br), authorization := None\<rparr>))"

datatype spa_op = SpaReload | SpaLogin "jsval + jsval" | SpaLogout

fun spa_step :: "JSON \<Rightarrow> spa_auth \<times> spa_browser \<Rightarrow> spa_op \<Rightarrow> spa_auth \<times> spa_browser" where
  "spa_step J (st, br) SpaReload = spa_mount J (br\<lparr>authorization := None\<rparr>)"
| "spa_step J (st, br) (SpaLogin response) = snd (spa_login J response (st, br))"
| "spa_step J (st, br) SpaLogout = spa_logout (st, br)"

definition spa_run :: "JSON \<Rightarrow> spa_op list \<Rightarrow> spa_auth \<times> spa_browser \<Rightarrow> spa_auth \<times> spa_browser" where
  "spa_run J ops sb = foldl (spa_step J) sb ops"

text \<open>
  A login whose fulfilled response carries a token (a non-empty string) and a user that
  survives \<open>JSON.parse(JSON.stringify(user))\<close>, as \<open>/auth/login\<close> answers.
\<close>

fun spa_carries_both :: "JSON \<Rightarrow> spa_op \<Rightarrow> bool" where
  "spa_carries_both J (SpaLogin (Inr data)) =
     (is_string (opt_prop data ''access_token'') \<and> truthy (opt_prop data ''access_token'')
      \<and> truthy (opt_prop data ''user'')
      \<and> parse J (stringify J (opt_prop data ''user'')) = Some (opt_prop data ''user''))"
| "spa_carries_both J op = True"

text \<open>
  The tokens a session was given: the one in the storage it started from, and the ones
  its login responses carried.
\<close>

fun login_token :: "spa_op \<Rightarrow> string list" where
  "login_token (SpaLogin (Inr data)) =
     (case opt_prop data ''access_token'' of JStr t \<Rightarrow> [t] | _ \<Rightarrow> [])"
| "login_token op = []"

definition spa_tokens :: "(string \<rightharpoonup> string) \<Rightarrow> spa_op list \<Rightarrow> string list" where
  "spa_tokens ls ops =
     (case ls ''access_token'' of None \<Rightarrow> [] | Some t \<Rightarrow> [t]) @ concat (map login_token ops)"

section \<open>Invariants, a reference codec and sample data\<close>

subsection \<open>Sample violations and challans\<close>

text \<open>Violations and challans to run the dashboard on.\<close>

definition two_violations :: "violation list" where
  "two_violations = [\<lparr>id_v = JStr ''v1''\<rparr>, \<lparr>id_v = JStr ''v2''\<rparr>]"

definition three_violations :: "violation list" where
  "three_violations = [\<lparr>id_v = JStr ''v1''\<rparr>, \<lparr>id_v = JStr ''v2''\<rparr>, \<lparr>id_v = JStr ''v3''\<rparr>]"

definition challan_for :: "jsval \<Rightarrow> challan" where
  "challan_for x = \<lparr>id_c = JStr ''c'', violation_id = x, status = JStr ''unpaid'', meta = JUndefined\<rparr>"

definition two_challans :: "challan list" where
  "two_challans =
     [\<lparr>id_c = JNum 1, violation_id = JStr ''v1'', status = JStr ''unpaid'', meta = JUndefined\<rparr>,
      \<lparr>id_c = JNum 2, violation_id = JStr ''v2'', status = JStr ''unpaid'', meta = JUndefined\<rparr>]"

definition paid_then_unpaid :: "challan list" where
  "paid_then_unpaid =
     [\<lparr>id_c = JNum 1, violation_id = JStr ''v1'', status = JStr ''paid'', meta = JUndefined\<rparr>,
      \<lparr>id_c = JNum 2, violation_id = JStr ''v2'', status = JStr ''unpaid'',
       meta = JObj [(''snapshot_path'', JStr ''cam1.jpg'')]\<rparr>]"

subsection \<open>Malformed records and well-kept storage\<close>

text \<open>
  A persisted single record is malformed when it is empty, does not parse, or parses to a
  value without a (truthy) \<open>accessToken\<close> or without a (truthy) \<open>user\<close>.
\<close>

definition malformed :: "JSON \<Rightarrow> string \<Rightarrow> bool" where
  "malformed J raw =
     (raw = [] \<or>
      (case parse J raw of
         None \<Rightarrow> True
       | Some v \<Rightarrow> \<not> truthy (opt_prop v ''accessToken'') \<or> \<not> truthy (opt_prop v ''user'')))"

text \<open>
  A persisted split record is malformed when the \<open>access_token\<close> or the \<open>user\<close> key is
  missing or empty, or the \<open>user\<close> text does not parse, or parses to a value that is no
  identity (a falsy value, such as \<open>null\<close>).
\<close>

definition spa_malformed :: "JSON \<Rightarrow> (string \<rightharpoonup> string) \<Rightarrow> bool" where
  "spa_malformed J ls =
     (case (ls ''access_token'', ls ''user'') of
        (Some token, Some userData) \<Rightarrow>
          token = [] \<or> userData = []
          \<or> (case parse J userData of None \<Rightarrow> True | Some u \<Rightarrow> \<not> truthy u)
      | _ \<Rightarrow> True)"

text \<open>
  The two states a session is meant to be in: nobody logged in, or a token together with a
  user. For frontend-spa the credential is the \<open>Authorization\<close> header, and it counts as
  present when it is \<open>Bearer\<close> followed by one of the (non-empty) tokens \<open>ts\<close> the session
  was given: a header made from a missing token, \<open>Bearer undefined\<close>, is no credential.
\<close>

definition set_together :: "auth \<Rightarrow> bool" where
  "set_together st =
     ((accessToken st = JNull \<and> user st = JNull) \<or> (truthy (accessToken st) \<and> truthy (user st)))"

definition spa_set_together :: "string list \<Rightarrow> spa_auth \<times> spa_browser \<Rightarrow> bool" where
  "spa_set_together ts sb =
     ((spa_user (fst sb) = JNull \<and> authorization (snd sb) = None)
      \<or> (truthy (spa_user (fst sb))
          \<and> list_ex (\<lambda>t. t \<noteq> [] \<and> authorization (snd sb) = Some (''Bearer '' @ t)) ts))"

text \<open>
  The \<open>user\<close> key of the split record is well kept when its text, if it parses at all,
  parses to an identity (a truthy value): what \<open>JSON.stringify\<close> wrote for a user.
\<close>

definition spa_storage_ok :: "JSON \<Rightarrow> (string \<rightharpoonup> string) \<Rightarrow> bool" where
  "spa_storage_ok J ls =
     (case ls ''user'' of
        None \<Rightarrow> True
      | Some userData \<Rightarrow> (case parse J userData of None \<Rightarrow> True | Some u \<Rightarrow> truthy u))"

subsection \<open>A reference codec\<close>

text \<open>
  To run the session stores on concrete storage, a codec for the JSON texts that
  \<open>JSON.stringify\<close> emits for \<open>jsval\<close> (no white space, integers, strings with
  \<open>"\<close> and \<open>\\<close> escaped; a later duplicate key wins). The reader takes a
  bound on the nesting it follows, set from the length of the text.
\<close>

fun quote_chars :: "string \<Rightarrow> string" where
  "quote_chars [] = []"
| "quote_chars (c # cs) =
     (if c = CHR 0x22 \<or> c = CHR 0x5C then CHR 0x5C # c # quote_chars cs else c # quote_chars cs)"

definition quoted :: "string \<Rightarrow> string" where
  "quoted s = CHR 0x22 # quote_chars s @ [CHR 0x22]"

fun json_text :: "jsval \<Rightarrow> string" where
  "json_text JUndefined = ''null''"
| "json_text JNull = ''null''"
| "json_text (JBool b) = (if b then ''true'' else ''false'')"
| "json_text (JNum n) = dec_int n"
| "json_text (JStr s) = quoted s"
| "json_text (JArr xs) = ''['' @ join_comma (map json_text xs) @ '']''"
| "json_text (JObj kvs) =
     ''{'' @ join_comma (map (\<lambda>(k, v). quoted k @ '':'' @ json_text v)
                          (filter (\<lambda>(k, v). v \<noteq> JUndefined) kvs)) @ ''}''"

fun read_string :: "string \<Rightarrow> (string \<times> string) option" where
  "read_string [] = None"
| "read_string (c # cs) =
     (if c = CHR 0x22 then Some ([], cs)
      else if c = CHR 0x5C then
        (case cs of
           [] \<Rightarrow> None
         | e # r \<Rightarrow>
             if e = CHR 0x22 \<or> e = CHR 0x5C
             then (case read_string r of None \<Rightarrow> None | Some (s, r') \<Rightarrow> Some (e # s, r'))
             else None)
      else (case read_string cs of None \<Rightarrow> None | Some (s, r') \<Rightarrow> Some (c # s, r')))"

definition is_digit :: "char \<Rightarrow> bool" where
  "is_digit c = (48 \<le> (of_char c :: nat) \<and> (of_char c :: nat) \<le> 57)"

fun read_nat :: "nat \<Rightarrow> string \<Rightarrow> nat \<times> string" where
  "read_nat acc [] = (acc, [])"
| "read_nat acc (c # cs) =
     (if is_digit c then read_nat (10 * acc + (of_char c - 48)) cs else (acc, c # cs))"

definition read_number :: "string \<Rightarrow> (jsval \<times> string) option" where
  "read_number cs =
     (case cs of
        [] \<Rightarrow> None
      | c # r \<Rightarrow>
          if c = CHR ''-'' then
            (case r of
               [] \<Rightarrow> None
             | e # r' \<Rightarrow>
                 if is_digit e then (case read_nat 0 r of (n, r'') \<Rightarrow> Some (JNum (- int n), r''))
                 else None)
          else if is_digit c then (case read_nat 0 cs of (n, r'') \<Rightarrow> Some (JNum (int n), r''))
          else None)"

definition starts :: "string \<Rightarrow> string \<Rightarrow> bool" where
  "starts p cs = (take (length p) cs = p)"

fun read_value :: "nat \<Rightarrow> string \<Rightarrow> (jsval \<times> string) option"
  and read_elements :: "nat \<Rightarrow> string \<Rightarrow> (jsval list \<times> string) option"
  and read_members :: "nat \<Rightarrow> string \<Rightarrow> ((string \<times> jsval) list \<times> string) option" where
  "read_value 0 cs = None"
| "read_value (Suc n) cs =
     (if starts ''null'' cs then Some (JNull, drop 4 cs)
      else if starts ''true'' cs then Some (JBool True, drop 4 cs)
      else if starts ''false'' cs then Some (JBool False, drop 5 cs)
      else if starts ''[]'' cs then Some (JArr [], drop 2 cs)
      else if starts ''{}'' cs then Some (JObj [], drop 2 cs)
      else if starts ''['' cs then
        (case read_elements n (drop 1 cs) of None \<Rightarrow> None | Some (xs, r) \<Rightarrow> Some (JArr xs, r))
      else if starts ''{'' cs then
        (case read_members n (drop 1 cs) of None \<Rightarrow> None | Some (kvs, r) \<Rightarrow> Some (JObj kvs, r))
      else if starts [CHR 0x22] cs then
        (case read_string (drop 1 cs) of None \<Rightarrow> None | Some (s, r) \<Rightarrow> Some (JStr s, r))
      else read_number cs)"
| "read_elements 0 cs = None"
| "read_elements (Suc n) cs =
     (case read_value n cs of
        None \<Rightarrow> None
      | Some (x, r) \<Rightarrow>
          if starts '','' r then
            (case read_elements n (drop 1 r) of None \<Rightarrow> None | Some (xs, r') \<Rightarrow> Some (x # xs, r'))
          else if starts '']'' r then Some ([x], drop 1 r)
          else None)"
| "read_members 0 cs = None"
| "read_members (Suc n) cs =
     (if starts [CHR 0x22] cs then
        (case read_string (drop 1 cs) of
           None \<Rightarrow> None
         | Some (k, r) \<Rightarrow>
             if starts '':'' r then
               (case read_value n (drop 1 r) of
                  None \<Rightarrow> None
                | Some (x, r') \<Rightarrow>
                    if starts '','' r' then
                      (case read_members n (drop 1 r') of
                         None \<Rightarrow> None
                       | Some (kvs, r'') \<Rightarrow>
                           Some ((if k \<in> fst ` set kvs then kvs else (k, x) # kvs), r''))
                    else if starts ''}'' r' then Some ([(k, x)], drop 1 r')
                    else None)
             else None)
      else None)"

definition json_read :: "string \<Rightarrow> jsval option" where
  "json_read s =
     (case read_value (Suc (length s)) s of
        Some (v, []) \<Rightarrow> Some v
      | _ \<Rightarrow> None)"

definition reference_JSON :: JSON where
  "reference_JSON = \<lparr>parse = json_read, stringify = json_text\<rparr>"

subsection \<open>Sample sessions\<close>

definition sample_user :: jsval where
  "sample_user = JObj [(''id'', JNum 42), (''name'', JStr ''Asha''), (''role'', JStr ''public'')]"

definition other_user :: jsval where
  "other_user = JObj [(''id'', JNum 43), (''name'', JStr ''Ravi''), (''role'', JStr ''public'')]"

definition sample_response :: jsval where
  "sample_response = JObj [(''user'', sample_user), (''access_token'', JStr ''tok'')]"

definition other_response :: jsval where
  "other_response = JObj [(''user'', other_user), (''access_token'', JStr ''tok2'')]"

definition with_vehicle :: "string \<Rightarrow> jsval" where
  "with_vehicle v = JObj [(''vehicleNumber'', if v = [] then JUndefined else JStr v)]"

definition empty_browser :: browser where
  "empty_browser = \<lparr>localStorage = Map.empty, api_accessToken = JNull\<rparr>"

definition spa_empty_browser :: spa_browser where
  "spa_empty_browser = \<lparr>spa_localStorage = Map.empty, authorization = None\<rparr>"

subsection \<open>Storage kept in step with the state\<close>

text \<open>
  What the persisting effect maintains in frontend-clean: the record is there exactly when
  a token and a user are, and it is the text of the state; the vehicle number is a
  non-empty value or the empty string. For frontend-spa: the session is in one of its two
  states, the \<open>user\<close> key is well kept, and the stored token is one the session was given.
\<close>

definition kept_in_sync :: "JSON \<Rightarrow> auth \<times> browser \<Rightarrow> bool" where
  "kept_in_sync J sb =
     (localStorage (snd sb) STORAGE_KEY =
        (if truthy (accessToken (fst sb)) \<and> truthy (user (fst sb))
         then Some (stringify J (stored_record (fst sb))) else None)
      \<and> (vehicleNumber (fst sb) = JStr [] \<or> truthy (vehicleNumber (fst sb))))"

definition spa_kept :: "JSON \<Rightarrow> string list \<Rightarrow> spa_auth \<times> spa_browser \<Rightarrow> bool" where
  "spa_kept J ts sb =
     (spa_set_together ts sb \<and> spa_storage_ok J (spa_localStorage (snd sb))
      \<and> (case spa_localStorage (snd sb) ''access_token'' of None \<Rightarrow> True | Some t \<Rightarrow> t \<in> set ts))"

subsection \<open>More sample sessions\<close>

definition sample_session :: auth where
  "sample_session =
     \<lparr>accessToken = JStr ''tok'', user = sample_user, vehicleNumber = JStr ''KA01AB1234''\<rparr>"

definition other_session :: auth where
  "other_session =
     \<lparr>accessToken = JStr ''tok2'', user = other_user, vehicleNumber = JStr ''KA01AB1234''\<rparr>"

text \<open>Records cut short, and a split record without its token.\<close>

definition truncated_record :: string where
  "truncated_record = take 30 (json_text (stored_record sample_session))"

definition truncated_browser :: browser where
  "truncated_browser =
     \<lparr>localStorage = [STORAGE_KEY \<mapsto> truncated_record], api_accessToken = JNull\<rparr>"

definition spa_truncated_browser :: spa_browser where
  "spa_truncated_browser =
     \<lparr>spa_localStorage = [''access_token'' \<mapsto> ''tok'', ''user'' \<mapsto> take 10 (json_text sample_user)],
      authorization = None\<rparr>"

definition spa_user_only_browser :: spa_browser where
  "spa_user_only_browser =
     \<lparr>spa_localStorage = [''user'' \<mapsto> json_text sample_user], authorization = None\<rparr>"

text \<open>A split record whose \<open>user\<close> text is \<open>null\<close>, and a login response without a user.\<close>

definition spa_null_user_browser :: spa_browser where
  "spa_null_user_browser =
     \<lparr>spa_localStorage = [''access_token'' \<mapsto> ''tok'', ''user'' \<mapsto> ''null''],
      authorization = None\<rparr>"

definition token_only_response :: jsval where
  "token_only_response = JObj [(''access_token'', JStr ''t'')]"

text \<open>Two lives of a session.\<close>

definition sample_ops :: "auth_op list" where
  "sample_ops =
     [Login sample_response (with_vehicle ''KA01AB1234''), Reload, Logout,
      Login other_response (with_vehicle []), Reload]"

definition spa_sample_ops :: "spa_op list" where
  "spa_sample_ops =
     [SpaLogin (Inr sample_response), SpaReload, SpaLogin (Inl JNull), SpaLogout,
      SpaLogin (Inr other_response)]"

section \<open>Properties of the reconciliation pass\<close>

subsection \<open>What a run leaves on the wire\<close>

lemma await_call_wire:
  "await_call r f w = (res, w') \<Longrightarrow>
     wire w' = wire w @ [Sent r, Settled r (\<not> isl res)] \<and> console w' = console w"
  by (auto simp: await_call_def split: prod.splits)

lemma sent_creates_append [simp]: "sent_creates (xs @ ys) = sent_creates xs @ sent_creates ys"
  by (induction xs rule: sent_creates.induct) auto

lemma failed_creates_append [simp]: "failed_creates (xs @ ys) = failed_creates xs @ failed_creates ys"
  by (induction xs rule: failed_creates.induct) auto

lemma sent_pays_append [simp]: "sent_pays (xs @ ys) = sent_pays xs @ sent_pays ys"
  by (induction xs rule: sent_pays.induct) auto

lemma fulfilled_creates_simps [simp]:
  "fulfilled_creates [] = []"
  "fulfilled_creates (v # vs) =
     Sent (PostFromViolation (id_v v)) # Settled (PostFromViolation (id_v v)) True # fulfilled_creates vs"
  by (simp_all add: fulfilled_creates_def)

lemma fulfilled_creates_append [simp]:
  "fulfilled_creates (xs @ ys) = fulfilled_creates xs @ fulfilled_creates ys"
  by (simp add: fulfilled_creates_def)

lemma sent_creates_fulfilled [simp]: "sent_creates (fulfilled_creates vs) = map id_v vs"
  by (induction vs) auto

lemma failed_creates_fulfilled [simp]: "failed_creates (fulfilled_creates vs) = []"
  by (induction vs) auto

lemma sent_pays_fulfilled [simp]: "sent_pays (fulfilled_creates vs) = []"
  by (induction vs) auto

lemma sequential_fulfilled_append [simp]:
  "sequential (fulfilled_creates vs @ es) = sequential es"
  by (induction vs) auto

lemma GetChallans_notin_fulfilled [simp]: "Sent GetChallans \<notin> set (fulfilled_creates vs)"
  by (induction vs) auto

lemma create_loop_Inr:
  "create_loop A vs w = (Inr u, w') \<Longrightarrow>
     wire w' = wire w @ fulfilled_creates vs \<and> console w' = console w"
proof (induction vs arbitrary: w)
  case Nil
  then show ?case by simp
next
  case (Cons v vs)
  obtain res w1 where a: "await_call (PostFromViolation (id_v v)) (createChallanFromViolation A (id_v v)) w = (res, w1)"
    by (cases "await_call (PostFromViolation (id_v v)) (createChallanFromViolation A (id_v v)) w")
  show ?case
  proof (cases res)
    case (Inl e)
    with a Cons.prems show ?thesis by simp
  next
    case (Inr x)
    with a Cons.prems have "create_loop A vs w1 = (Inr u, w')" by simp
    from Cons.IH [OF this] await_call_wire [OF a] Inr show ?thesis by simp
  qed
qed

lemma create_loop_Inl:
  "create_loop A vs w = (Inl err, w') \<Longrightarrow>
     \<exists>n. n < length vs \<and>
       wire w' = wire w @ fulfilled_creates (take n vs)
                   @ [Sent (PostFromViolation (id_v (vs ! n))),
                      Settled (PostFromViolation (id_v (vs ! n))) False]
       \<and> console w' = console w"
proof (induction vs arbitrary: w)
  case Nil
  then show ?case by simp
next
  case (Cons v vs)
  obtain res w1 where a: "await_call (PostFromViolation (id_v v)) (createChallanFromViolation A (id_v v)) w = (res, w1)"
    by (cases "await_call (PostFromViolation (id_v v)) (createChallanFromViolation A (id_v v)) w")
  show ?case
  proof (cases res)
    case (Inl e)
    with a Cons.prems have "w' = w1" by simp
    with await_call_wire [OF a] Inl show ?thesis
      by (intro exI [of _ 0]) simp
  next
    case (Inr x)
    with a Cons.prems have "create_loop A vs w1 = (Inl err, w')" by simp
    from Cons.IH [OF this] obtain n where n: "n < length vs"
      "wire w' = wire w1 @ fulfilled_creates (take n vs)
                   @ [Sent (PostFromViolation (id_v (vs ! n))),
                      Settled (PostFromViolation (id_v (vs ! n))) False]"
      "console w' = console w1" by blast
    with await_call_wire [OF a] Inr show ?thesis
      by (intro exI [of _ "Suc n"]) simp
  qed
qed

lemma new_events_append [simp]: "wire w' = wire w @ evs \<Longrightarrow> new_events w w' = evs"
  by (simp add: new_events_def)

lemma new_events_same [simp]: "new_events w w = []"
  by (simp add: new_events_def)

lemma loadChallans_events:
  assumes "loadChallans A (d, w) = (p, d', w')"
  shows "p = Inr () \<and> (\<exists>b. wire w' = wire w @ [Sent GetChallans, Settled GetChallans b])
         \<and> console w' = console w \<and> hasSyncedRef d' = hasSyncedRef d
         \<and> violations d' = violations d"
proof -
  obtain res w1 where a: "await_call GetChallans (listChallans A) w = (res, w1)"
    by (cases "await_call GetChallans (listChallans A) w")
  from assms a await_call_wire [OF a] show ?thesis
    by (cases res) (auto simp: loadChallans_def)
qed

text \<open>The three ways a pass can go.\<close>

lemma sync_outcome:
  assumes run: "syncChallansFromViolations A vn (d, w) = (p, d', w')"
  defines "todo \<equiv> toCreate (challans d) (violations d)"
  shows "p = Inr () \<and>
    ((d' = d \<and> w' = w \<and> (\<not> truthy vn \<or> hasSyncedRef d \<or> todo = []))
     \<or> (truthy vn \<and> \<not> hasSyncedRef d \<and> todo \<noteq> [] \<and> hasSyncedRef d'
         \<and> console w' = console w
         \<and> (\<exists>b. wire w' = wire w @ fulfilled_creates todo @ [Sent GetChallans, Settled GetChallans b]))
     \<or> (truthy vn \<and> \<not> hasSyncedRef d \<and> d' = d
         \<and> (\<exists>err. console w' = console w @ [err])
         \<and> (\<exists>n<length todo. wire w' = wire w @ fulfilled_creates (take n todo)
                @ [Sent (PostFromViolation (id_v (todo ! n))),
                   Settled (PostFromViolation (id_v (todo ! n))) False])))"
proof (cases "\<not> truthy vn \<or> hasSyncedRef d \<or> todo = []")
  case True
  with run show ?thesis
    by (auto simp: syncChallansFromViolations_def todo_def Let_def split: if_splits)
next
  case False
  then have g: "truthy vn" "\<not> hasSyncedRef d" "todo \<noteq> []" by auto
  obtain res w1 where loop: "create_loop A todo w = (res, w1)"
    by (cases "create_loop A todo w")
  show ?thesis
  proof (cases res)
    case (Inl err)
    with run g loop have r: "p = Inr ()" "d' = d" "w' = w1\<lparr>console := console w1 @ [err]\<rparr>"
      by (auto simp: syncChallansFromViolations_def todo_def [symmetric] sync_try_def Let_def)
    from create_loop_Inl [OF loop [unfolded Inl]] obtain n where
      "n < length todo"
      "wire w1 = wire w @ fulfilled_creates (take n todo)
                @ [Sent (PostFromViolation (id_v (todo ! n))),
                   Settled (PostFromViolation (id_v (todo ! n))) False]"
      "console w1 = console w" by blast
    with r g show ?thesis by auto
  next
    case (Inr u)
    obtain q d2 w2 where lc: "loadChallans A (d\<lparr>hasSyncedRef := True\<rparr>, w1) = (q, d2, w2)"
      by (cases "loadChallans A (d\<lparr>hasSyncedRef := True\<rparr>, w1)")
    from loadChallans_events [OF lc] obtain b where
      l: "q = Inr ()" "wire w2 = wire w1 @ [Sent GetChallans, Settled GetChallans b]"
         "console w2 = console w1" "hasSyncedRef d2" by auto
    from run g loop Inr lc l(1) have r: "p = Inr ()" "d' = d2" "w' = w2"
      by (auto simp: syncChallansFromViolations_def todo_def [symmetric] sync_try_def Let_def)
    from create_loop_Inr [OF loop [unfolded Inr]] l r g show ?thesis by auto
  qed
qed

subsection \<open>A rejected creation request\<close>

text \<open>
  C1 (as amended). When a creation request of a pass is rejected, the pass ends there:
  the rejected request is the last event of the pass, so the creation requests for the
  missing violations after it are not issued and the challan list is not fetched again;
  the component's state, the \<open>hasSyncedRef\<close> flag included, is what it was, and the flag
  is not set; the rejection value is handed to \<open>console.error\<close> once, and the promise
  of the pass is fulfilled: nothing reaches the caller.
\<close>

theorem sync_rejected_creation_ends_pass:
  assumes "syncChallansFromViolations A vn (d, w) = (p, d', w')"
    and "failed_creates (new_events w w') \<noteq> []"
  shows "p = Inr () \<and> d' = d \<and> \<not> hasSyncedRef d'
    \<and> (\<exists>err. console w' = console w @ [err])
    \<and> (\<exists>n<length (toCreate (challans d) (violations d)).
          new_events w w' =
            fulfilled_creates (take n (toCreate (challans d) (violations d)))
            @ [Sent (PostFromViolation (id_v (toCreate (challans d) (violations d) ! n))),
               Settled (PostFromViolation (id_v (toCreate (challans d) (violations d) ! n))) False])"
  using sync_outcome [OF assms(1)] assms(2) by auto

theorem sync_rejected_creation_ends_pass_witness:
  "failed_creates
     (new_events (quiet_world [])
        (snd (snd (syncChallansFromViolations (scripted_backend [JStr ''v1'']) (JStr ''KA01AB1234'')
           (fresh_dashboard [] [\<lparr>id_v = JStr ''v1''\<rparr>, \<lparr>id_v = JStr ''v2''\<rparr>], quiet_world []))))) \<noteq> []
   \<and> syncChallansFromViolations (scripted_backend [JStr ''v1'']) (JStr ''KA01AB1234'')
        (fresh_dashboard [] [\<lparr>id_v = JStr ''v1''\<rparr>, \<lparr>id_v = JStr ''v2''\<rparr>], quiet_world [])
      = (Inr (), fresh_dashboard [] [\<lparr>id_v = JStr ''v1''\<rparr>, \<lparr>id_v = JStr ''v2''\<rparr>],
         \<lparr>server = [],
          wire = [Sent (PostFromViolation (JStr ''v1'')), Settled (PostFromViolation (JStr ''v1'')) False],
          console = [JStr ''rejected'']\<rparr>)"
proof -
  let ?d = "fresh_dashboard [] [\<lparr>id_v = JStr ''v1''\<rparr>, \<lparr>id_v = JStr ''v2''\<rparr>]"
  let ?w' = "\<lparr>server = [],
          wire = [Sent (PostFromViolation (JStr ''v1'')), Settled (PostFromViolation (JStr ''v1'')) False],
          console = [JStr ''rejected'']\<rparr> :: challan list world"
  have run: "syncChallansFromViolations (scripted_backend [JStr ''v1'']) (JStr ''KA01AB1234'')
        (?d, quiet_world []) = (Inr (), ?d, ?w')"
    by (simp add: syncChallansFromViolations_def toCreate_def existingViolationIds_def
        fresh_dashboard_def quiet_world_def sync_try_def await_call_def scripted_backend_def)
  have f: "failed_creates (new_events (quiet_world []) ?w') \<noteq> []"
    by (simp add: new_events_def quiet_world_def)
  from sync_rejected_creation_ends_pass [OF run f] run f show ?thesis by simp
qed

text \<open>
  C1 as stated fails: with violations \<open>v1\<close>, \<open>v2\<close>, no challans and a backend that rejects
  the request for \<open>v1\<close>, the only creation request of the pass is the one for \<open>v1\<close>, and
  the flag is still unset afterwards.
\<close>

theorem sync_rejected_creation_counterexample:
  "sent_creates (wire (snd (snd
       (syncChallansFromViolations (scripted_backend [JStr ''v1'']) (JStr ''KA01AB1234'')
          (fresh_dashboard [] [\<lparr>id_v = JStr ''v1''\<rparr>, \<lparr>id_v = JStr ''v2''\<rparr>], quiet_world []))))) = [JStr ''v1'']
   \<and> hasSyncedRef (fst (snd
       (syncChallansFromViolations (scripted_backend [JStr ''v1'']) (JStr ''KA01AB1234'')
          (fresh_dashboard [] [\<lparr>id_v = JStr ''v1''\<rparr>, \<lparr>id_v = JStr ''v2''\<rparr>], quiet_world [])))) = False"
  by (simp add: syncChallansFromViolations_def toCreate_def existingViolationIds_def
        fresh_dashboard_def quiet_world_def sync_try_def await_call_def scripted_backend_def)

subsection \<open>The creation requests of a pass\<close>

lemma sent_creates_toCreate_prefix:
  assumes "syncChallansFromViolations A vn (d, w) = (p, d', w')"
  shows "prefix (sent_creates (new_events w w')) (map id_v (toCreate (challans d) (violations d)))"
proof -
  let ?todo = "toCreate (challans d) (violations d)"
  from sync_outcome [OF assms] consider
      "w' = w"
    | b where "wire w' = wire w @ fulfilled_creates ?todo @ [Sent GetChallans, Settled GetChallans b]"
    | n where "n < length ?todo" "wire w' = wire w @ fulfilled_creates (take n ?todo)
                @ [Sent (PostFromViolation (id_v (?todo ! n))),
                   Settled (PostFromViolation (id_v (?todo ! n))) False]"
    by blast
  then show ?thesis
  proof cases
    case 1 then show ?thesis by simp
  next
    case 2 then show ?thesis by simp
  next
    case 3
    then have "sent_creates (new_events w w') = map id_v (take (Suc n) ?todo)"
      by (simp add: take_Suc_conv_app_nth)
    then show ?thesis by (simp add: take_is_prefix map_mono_prefix)
  qed
qed

text \<open>The definitions a concrete run unfolds.\<close>

lemmas run_defs =
  syncChallansFromViolations_def toCreate_def existingViolationIds_def
  fresh_dashboard_def quiet_world_def sync_try_def await_call_def scripted_backend_def
  loadChallans_def new_events_def

text \<open>
  C2 (as amended). A pass that starts with a vehicle number and an unset flag issues its
  requests one after the other, each settled before the next leaves. Its creation
  requests are, in the order of \<open>violations\<close>, those for the violations whose identifier,
  as a string, is the \<open>violation_id\<close>, as a string, of no challan. When no creation request
  is rejected there is exactly one per such violation, and the wire of the pass is those
  requests, each fulfilled, followed by one fetch of the challans. When one is rejected,
  the wire of the pass is the fulfilled requests for the violations before it followed by
  the rejected request and nothing else: the creation requests are those up to and
  including the first rejected one. When there is no such violation the pass issues
  nothing and leaves the state, the flag included, as it was.
\<close>

theorem sync_creates_missing_in_order:
  assumes "syncChallansFromViolations A vn (d, w) = (p, d', w')"
    and "truthy vn" and "\<not> hasSyncedRef d"
  shows "sequential (new_events w w')
    \<and> prefix (sent_creates (new_events w w')) (map id_v (toCreate (challans d) (violations d)))
    \<and> (failed_creates (new_events w w') = [] \<longrightarrow>
          sent_creates (new_events w w') = map id_v (toCreate (challans d) (violations d)))
    \<and> (toCreate (challans d) (violations d) \<noteq> [] \<and> failed_creates (new_events w w') = [] \<longrightarrow>
          (\<exists>b. new_events w w' =
                 fulfilled_creates (toCreate (challans d) (violations d))
                 @ [Sent GetChallans, Settled GetChallans b]))
    \<and> (failed_creates (new_events w w') \<noteq> [] \<longrightarrow>
          (\<exists>n<length (toCreate (challans d) (violations d)).
              new_events w w' =
                fulfilled_creates (take n (toCreate (challans d) (violations d)))
                @ [Sent (PostFromViolation (id_v (toCreate (challans d) (violations d) ! n))),
                   Settled (PostFromViolation (id_v (toCreate (challans d) (violations d) ! n))) False]
              \<and> sent_creates (new_events w w') =
                  map id_v (take (Suc n) (toCreate (challans d) (violations d)))))
    \<and> (toCreate (challans d) (violations d) = [] \<longrightarrow> p = Inr () \<and> d' = d \<and> w' = w)
    \<and> toCreate (challans d) (violations d) =
          filter (\<lambda>v. \<forall>c\<in>set (challans d). js_String (id_v v) \<noteq> js_String (violation_id c))
            (violations d)"
proof -
  let ?todo = "toCreate (challans d) (violations d)"
  have spec: "?todo =
          filter (\<lambda>v. \<forall>c\<in>set (challans d). js_String (id_v v) \<noteq> js_String (violation_id c))
            (violations d)"
    unfolding toCreate_def existingViolationIds_def
    by (rule filter_cong) auto
  note pre = sent_creates_toCreate_prefix [OF assms(1)]
  from sync_outcome [OF assms(1)] assms(2,3) consider
      (skipped) "?todo = []" "p = Inr ()" "d' = d" "w' = w"
    | (completed) b where "?todo \<noteq> []"
        "wire w' = wire w @ fulfilled_creates ?todo @ [Sent GetChallans, Settled GetChallans b]"
    | (aborted) n where "n < length ?todo"
        "wire w' = wire w @ fulfilled_creates (take n ?todo)
                @ [Sent (PostFromViolation (id_v (?todo ! n))),
                   Settled (PostFromViolation (id_v (?todo ! n))) False]"
    by blast
  then show ?thesis
  proof cases
    case skipped
    with spec show ?thesis by simp
  next
    case completed
    then have e: "new_events w w' = fulfilled_creates ?todo @ [Sent GetChallans, Settled GetChallans b]"
      by simp
    have "sequential (new_events w w')" "failed_creates (new_events w w') = []"
      "sent_creates (new_events w w') = map id_v ?todo"
      unfolding e by simp_all
    with completed(1) e pre spec show ?thesis by auto
  next
    case aborted
    then have e: "new_events w w' = fulfilled_creates (take n ?todo)
                @ [Sent (PostFromViolation (id_v (?todo ! n))),
                   Settled (PostFromViolation (id_v (?todo ! n))) False]"
      by simp
    have s: "sequential (new_events w w')" "failed_creates (new_events w w') \<noteq> []"
      unfolding e by simp_all
    have c: "sent_creates (new_events w w') = map id_v (take (Suc n) ?todo)"
      unfolding e using aborted(1) by (simp add: take_Suc_conv_app_nth)
    from aborted(1) have ne: "?todo \<noteq> []" by auto
    from s c e aborted(1) ne pre spec show ?thesis by auto
  qed
qed

theorem sync_creates_missing_in_order_witness:
  "truthy (JStr ''KA01AB1234'')
   \<and> \<not> hasSyncedRef (fresh_dashboard [challan_for (JStr ''v2'')] three_violations)
   \<and> sent_creates (new_events (quiet_world [challan_for (JStr ''v2'')])
        (snd (snd (syncChallansFromViolations (scripted_backend []) (JStr ''KA01AB1234'')
           (fresh_dashboard [challan_for (JStr ''v2'')] three_violations,
            quiet_world [challan_for (JStr ''v2'')])))))
      = [JStr ''v1'', JStr ''v3'']
   \<and> \<not> hasSyncedRef (fresh_dashboard [] three_violations)
   \<and> new_events (quiet_world [])
        (snd (snd (syncChallansFromViolations (scripted_backend [JStr ''v2'']) (JStr ''KA01AB1234'')
           (fresh_dashboard [] three_violations, quiet_world []))))
      = [Sent (PostFromViolation (JStr ''v1'')), Settled (PostFromViolation (JStr ''v1'')) True,
         Sent (PostFromViolation (JStr ''v2'')), Settled (PostFromViolation (JStr ''v2'')) False]"
proof -
  let ?d = "fresh_dashboard [challan_for (JStr ''v2'')] three_violations"
  let ?w = "quiet_world [challan_for (JStr ''v2'')]"
  let ?e = "fresh_dashboard [] three_violations"
  let ?v = "quiet_world [] :: challan list world"
  obtain p d' w' where run:
    "syncChallansFromViolations (scripted_backend []) (JStr ''KA01AB1234'') (?d, ?w) = (p, d', w')"
    by (cases "syncChallansFromViolations (scripted_backend []) (JStr ''KA01AB1234'') (?d, ?w)")
  obtain q e' v' where run2:
    "syncChallansFromViolations (scripted_backend [JStr ''v2'']) (JStr ''KA01AB1234'') (?e, ?v) = (q, e', v')"
    by (cases "syncChallansFromViolations (scripted_backend [JStr ''v2'']) (JStr ''KA01AB1234'') (?e, ?v)")
  have t: "truthy (JStr ''KA01AB1234'')" by simp
  have h: "\<not> hasSyncedRef ?d" "\<not> hasSyncedRef ?e" by (simp_all add: fresh_dashboard_def)
  have w: "wire w' = [Sent (PostFromViolation (JStr ''v1'')), Settled (PostFromViolation (JStr ''v1'')) True,
      Sent (PostFromViolation (JStr ''v3'')), Settled (PostFromViolation (JStr ''v3'')) True,
      Sent GetChallans, Settled GetChallans True]"
    using run by (auto simp: run_defs three_violations_def challan_for_def)
  then have f: "failed_creates (new_events ?w w') = []"
    by (simp add: new_events_def quiet_world_def)
  have todo: "toCreate (challans ?d) (violations ?d) = [\<lparr>id_v = JStr ''v1''\<rparr>, \<lparr>id_v = JStr ''v3''\<rparr>]"
    by (simp add: run_defs three_violations_def challan_for_def)
  have v: "wire v' = [Sent (PostFromViolation (JStr ''v1'')), Settled (PostFromViolation (JStr ''v1'')) True,
      Sent (PostFromViolation (JStr ''v2'')), Settled (PostFromViolation (JStr ''v2'')) False]"
    using run2 by (auto simp: run_defs three_violations_def)
  then have g: "new_events ?v v' = [Sent (PostFromViolation (JStr ''v1'')), Settled (PostFromViolation (JStr ''v1'')) True,
      Sent (PostFromViolation (JStr ''v2'')), Settled (PostFromViolation (JStr ''v2'')) False]"
    by (simp add: new_events_def quiet_world_def)
  from sync_creates_missing_in_order [OF run t h(1)] sync_creates_missing_in_order [OF run2 t h(2)]
       f todo run run2 t h g
  show ?thesis by simp
qed

text \<open>
  C2 as stated fails: with three missing violations and a backend that rejects the request
  for the second, the pass issues two creation requests, none for the third.
\<close>

theorem sync_creates_missing_counterexample:
  "truthy (JStr ''KA01AB1234'')
   \<and> \<not> hasSyncedRef (fresh_dashboard [] three_violations)
   \<and> toCreate [] three_violations = three_violations
   \<and> sent_creates (wire (snd (snd
        (syncChallansFromViolations (scripted_backend [JStr ''v2'']) (JStr ''KA01AB1234'')
           (fresh_dashboard [] three_violations, quiet_world [])))))
      = [JStr ''v1'', JStr ''v2'']"
  by (simp add: run_defs three_violations_def)

subsection \<open>A second pass\<close>

text \<open>
  C4. With violations \<open>[v1, v2]\<close>, no challans, a vehicle number and an unset flag, a pass
  whose request for \<open>v1\<close> is fulfilled issues exactly two creation requests, for \<open>v1\<close> then
  for \<open>v2\<close>; a pass against challans \<open>[c1, c2]\<close> for \<open>v1\<close> and \<open>v2\<close> issues no request and
  changes nothing, whatever the backend, the vehicle number and the flag.
\<close>

theorem sync_second_pass_creates_nothing:
  assumes "truthy vn" and "\<not> hasSyncedRef d"
    and "challans d = []" and "violations d = [v1, v2]"
    and "fst (createChallanFromViolation A (id_v v1) (server w)) = Inr ()"
    and "syncChallansFromViolations A vn (d, w) = (p, d', w')"
    and "challans d2 = [c1, c2]" and "violation_id c1 = id_v v1" and "violation_id c2 = id_v v2"
    and "violations d2 = [v1, v2]"
  shows "sent_creates (new_events w w') = [id_v v1, id_v v2]
    \<and> syncChallansFromViolations A2 vn2 (d2, w2) = (Inr (), d2, w2)"
proof -
  have todo: "toCreate (challans d) (violations d) = [v1, v2]"
    using assms(3,4) by (simp add: toCreate_def existingViolationIds_def)
  let ?r1 = "PostFromViolation (id_v v1)" and ?r2 = "PostFromViolation (id_v v2)"
  obtain wa where a1: "await_call ?r1 (createChallanFromViolation A (id_v v1)) w = (Inr (), wa)"
    using assms(5)
    by (cases "createChallanFromViolation A (id_v v1) (server w)") (simp add: await_call_def)
  obtain r2 wb where a2: "await_call ?r2 (createChallanFromViolation A (id_v v2)) wa = (r2, wb)"
    by (cases "await_call ?r2 (createChallanFromViolation A (id_v v2)) wa")
  from await_call_wire [OF a1] await_call_wire [OF a2]
  have wb: "wire wb = wire w @ [Sent ?r1, Settled ?r1 True, Sent ?r2, Settled ?r2 (\<not> isl r2)]"
    by simp
  have first: "sent_creates (new_events w w') = [id_v v1, id_v v2]"
  proof (cases r2)
    case (Inl e)
    with assms(1,2,6) todo a1 a2 have "wire w' = wire wb"
      by (auto simp: syncChallansFromViolations_def sync_try_def)
    with wb show ?thesis by simp
  next
    case (Inr u)
    obtain q d3 wc where lc: "loadChallans A (d\<lparr>hasSyncedRef := True\<rparr>, wb) = (q, d3, wc)"
      by (cases "loadChallans A (d\<lparr>hasSyncedRef := True\<rparr>, wb)")
    from loadChallans_events [OF lc] obtain b where
      l: "q = Inr ()" "wire wc = wire wb @ [Sent GetChallans, Settled GetChallans b]" by auto
    from assms(1,2,6) todo a1 a2 Inr lc l(1) have "w' = wc"
      by (auto simp: syncChallansFromViolations_def sync_try_def)
    with wb l(2) show ?thesis by simp
  qed
  have "toCreate (challans d2) (violations d2) = []"
    using assms(7-10) by (simp add: toCreate_def existingViolationIds_def)
  then have "syncChallansFromViolations A2 vn2 (d2, w2) = (Inr (), d2, w2)"
    by (simp add: syncChallansFromViolations_def)
  with first show ?thesis by simp
qed

theorem sync_second_pass_creates_nothing_witness:
  "syncChallansFromViolations (scripted_backend []) (JStr ''KA01AB1234'')
       (fresh_dashboard [] two_violations, quiet_world [])
     = (Inr (), (fresh_dashboard two_challans two_violations)\<lparr>hasSyncedRef := True\<rparr>,
        \<lparr>server = two_challans,
         wire = fulfilled_creates two_violations @ [Sent GetChallans, Settled GetChallans True],
         console = []\<rparr>)
   \<and> sent_creates (fulfilled_creates two_violations @ [Sent GetChallans, Settled GetChallans True])
       = [JStr ''v1'', JStr ''v2'']
   \<and> syncChallansFromViolations (scripted_backend []) (JStr ''KA01AB1234'')
       (fresh_dashboard two_challans two_violations, quiet_world two_challans)
     = (Inr (), fresh_dashboard two_challans two_violations, quiet_world two_challans)"
proof -
  let ?A = "scripted_backend []" and ?vn = "JStr ''KA01AB1234''"
  let ?d = "fresh_dashboard [] two_violations" and ?w = "quiet_world [] :: challan list world"
  let ?d' = "(fresh_dashboard two_challans two_violations)\<lparr>hasSyncedRef := True\<rparr>"
  let ?w' = "\<lparr>server = two_challans,
         wire = fulfilled_creates two_violations @ [Sent GetChallans, Settled GetChallans True],
         console = []\<rparr>"
  let ?d2 = "fresh_dashboard two_challans two_violations"
  have run: "syncChallansFromViolations ?A ?vn (?d, ?w) = (Inr (), ?d', ?w')"
    by (simp add: run_defs two_violations_def two_challans_def)
  have ne: "new_events ?w ?w' = fulfilled_creates two_violations @ [Sent GetChallans, Settled GetChallans True]"
    by (simp add: new_events_def quiet_world_def)
  have h: "truthy ?vn" "\<not> hasSyncedRef ?d" "challans ?d = []"
       "violations ?d = [\<lparr>id_v = JStr ''v1''\<rparr>, \<lparr>id_v = JStr ''v2''\<rparr>]"
       "fst (createChallanFromViolation ?A (id_v \<lparr>id_v = JStr ''v1''\<rparr>) (server ?w)) = Inr ()"
    by (simp_all add: fresh_dashboard_def two_violations_def scripted_backend_def quiet_world_def)
  have h2: "challans ?d2 = [two_challans ! 0, two_challans ! 1]"
       "violation_id (two_challans ! 0) = id_v \<lparr>id_v = JStr ''v1''\<rparr>"
       "violation_id (two_challans ! 1) = id_v \<lparr>id_v = JStr ''v2''\<rparr>"
       "violations ?d2 = [\<lparr>id_v = JStr ''v1''\<rparr>, \<lparr>id_v = JStr ''v2''\<rparr>]"
    by (simp_all add: fresh_dashboard_def two_violations_def two_challans_def)
  from sync_second_pass_creates_nothing [OF h run h2, of ?A ?vn "quiet_world two_challans"] run ne
  show ?thesis by simp
qed

subsection \<open>Identifiers are compared as strings\<close>

text \<open>
  C9. A violation whose identifier prints as the \<open>violation_id\<close> of some challan prints
  (the number \<open>7\<close> and the string \<open>"7"\<close>, in the witness) is not among the violations
  to create, and no creation request of the pass carries its identifier.
\<close>

theorem sync_skips_covered_violation:
  assumes "syncChallansFromViolations A vn (d, w) = (p, d', w')"
    and "v \<in> set (violations d)" and "c \<in> set (challans d)"
    and "js_String (id_v v) = js_String (violation_id c)"
  shows "v \<notin> set (toCreate (challans d) (violations d))
    \<and> id_v v \<notin> set (sent_creates (new_events w w'))"
proof -
  have cov: "\<And>u. u \<in> set (toCreate (challans d) (violations d)) \<Longrightarrow> id_v u \<noteq> id_v v"
    using assms(3,4) by (auto simp: toCreate_def existingViolationIds_def)
  then have 1: "v \<notin> set (toCreate (challans d) (violations d))" by blast
  have "set (sent_creates (new_events w w')) \<subseteq> set (map id_v (toCreate (challans d) (violations d)))"
    using sent_creates_toCreate_prefix [OF assms(1)] by (rule set_mono_prefix)
  with cov have "id_v v \<notin> set (sent_creates (new_events w w'))" by force
  with 1 show ?thesis by simp
qed

theorem sync_skips_covered_violation_witness:
  "js_String (JNum 7) = js_String (JStr ''7'')
   \<and> \<lparr>id_v = JNum 7\<rparr> \<notin> set (toCreate [challan_for (JStr ''7'')] [\<lparr>id_v = JNum 7\<rparr>, \<lparr>id_v = JNum 8\<rparr>])
   \<and> JNum 7 \<notin> set (sent_creates (new_events (quiet_world [])
        (snd (snd (syncChallansFromViolations (scripted_backend []) (JStr ''KA01AB1234'')
           (fresh_dashboard [challan_for (JStr ''7'')] [\<lparr>id_v = JNum 7\<rparr>, \<lparr>id_v = JNum 8\<rparr>],
            quiet_world []))))))"
proof -
  let ?d = "fresh_dashboard [challan_for (JStr ''7'')] [\<lparr>id_v = JNum 7\<rparr>, \<lparr>id_v = JNum 8\<rparr>]"
  let ?w = "quiet_world [] :: challan list world"
  obtain p d' w' where run:
    "syncChallansFromViolations (scripted_backend []) (JStr ''KA01AB1234'') (?d, ?w) = (p, d', w')"
    by (cases "syncChallansFromViolations (scripted_backend []) (JStr ''KA01AB1234'') (?d, ?w)")
  have s: "js_String (JNum 7) = js_String (JStr ''7'')" by code_simp
  have h: "\<lparr>id_v = JNum 7\<rparr> \<in> set (violations ?d)" "challan_for (JStr ''7'') \<in> set (challans ?d)"
    "js_String (id_v \<lparr>id_v = JNum 7\<rparr>) = js_String (violation_id (challan_for (JStr ''7'')))"
    using s by (simp_all add: fresh_dashboard_def challan_for_def)
  from sync_skips_covered_violation [OF run h] s run show ?thesis
    by (simp add: fresh_dashboard_def)
qed

section \<open>Properties of the pay button\<close>

lemma render_cards_Inr:
  "render_cards cs = Inr bs \<Longrightarrow>
     length bs = length cs \<and> (\<forall>k<length cs. render_card (cs ! k) = Inr (bs ! k))"
proof (induction cs arbitrary: bs)
  case Nil
  then show ?case by simp
next
  case (Cons c cs)
  then obtain b bs' where b: "render_card c = Inr b" "render_cards cs = Inr bs'" "bs = b # bs'"
    by (auto split: sum.splits)
  from Cons.IH [OF b(2)] b show ?case
    by (auto simp: nth_Cons split: nat.splits)
qed

lemma render_card_Inr:
  "render_card c = Inr b \<Longrightarrow>
     disabled b = (status c = JStr ''paid'') \<and> onClick b = id_c c \<and> is_string (status c)"
  by (auto simp: render_card_def Let_def split: if_splits)

lemma handlePay_pays:
  assumes "handlePay A x (d, w) = (p, d', w')"
  shows "p = Inr () \<and> sent_pays (new_events w w') = [x]"
proof -
  obtain res w1 where a: "await_call (PostPay x) (payChallan A x) w = (res, w1)"
    by (cases "await_call (PostPay x) (payChallan A x) w")
  note w1 = await_call_wire [OF a]
  show ?thesis
  proof (cases res)
    case (Inl e)
    with assms a have "p = Inr ()" "w' = w1" by (auto simp: handlePay_def Let_def)
    with w1 show ?thesis by simp
  next
    case (Inr u)
    with assms a have l: "loadChallans A (d\<lparr>actionError := JStr []\<rparr>, w1) = (p, d', w')"
      by (auto simp: handlePay_def Let_def)
    from loadChallans_events [OF l] w1 show ?thesis by auto
  qed
qed

text \<open>
  C10. When the cards render, card \<open>k\<close> shows challan \<open>k\<close>; its pay button is disabled
  exactly when that challan's status is \<open>"paid"\<close>, and its handler closes over that
  challan's identifier. A click on it therefore issues no pay request when the challan is
  shown as paid, and otherwise exactly one, for that challan.
\<close>

theorem pay_button_disabled_iff_paid:
  assumes "render_cards (challans d) = Inr bs" and "k < length (challans d)"
    and "click_pay A k (d, w) = (p, d', w')"
  shows "length bs = length (challans d)
    \<and> disabled (bs ! k) = (status (challans d ! k) = JStr ''paid'')
    \<and> onClick (bs ! k) = id_c (challans d ! k)
    \<and> sent_pays (new_events w w') =
        (if status (challans d ! k) = JStr ''paid'' then [] else [id_c (challans d ! k)])"
proof -
  from render_cards_Inr [OF assms(1)] assms(2)
  have len: "length bs = length (challans d)" and rc: "render_card (challans d ! k) = Inr (bs ! k)"
    by auto
  note b = render_card_Inr [OF rc]
  show ?thesis
  proof (cases "status (challans d ! k) = JStr ''paid''")
    case True
    with assms b len have "w' = w" by (simp add: click_pay_def)
    with True b len show ?thesis by simp
  next
    case False
    with assms b len have "handlePay A (id_c (challans d ! k)) (d, w) = (p, d', w')"
      by (simp add: click_pay_def)
    from handlePay_pays [OF this] False b len show ?thesis by simp
  qed
qed

theorem pay_button_disabled_iff_paid_witness:
  "render_cards (challans (fresh_dashboard paid_then_unpaid []))
     = Inr [\<lparr>disabled = True, label = ''Paid'', onClick = JNum 1\<rparr>,
            \<lparr>disabled = False, label = ''Pay Challan'', onClick = JNum 2\<rparr>]
   \<and> sent_pays (new_events (quiet_world paid_then_unpaid)
        (snd (snd (click_pay (scripted_backend []) 0
           (fresh_dashboard paid_then_unpaid [], quiet_world paid_then_unpaid))))) = []
   \<and> sent_pays (new_events (quiet_world paid_then_unpaid)
        (snd (snd (click_pay (scripted_backend []) 1
           (fresh_dashboard paid_then_unpaid [], quiet_world paid_then_unpaid))))) = [JNum 2]"
proof -
  let ?d = "fresh_dashboard paid_then_unpaid []"
  let ?w = "quiet_world paid_then_unpaid"
  let ?bs = "[\<lparr>disabled = True, label = ''Paid'', onClick = JNum 1\<rparr>,
            \<lparr>disabled = False, label = ''Pay Challan'', onClick = JNum 2\<rparr>]"
  have r: "render_cards (challans ?d) = Inr ?bs"
    by (simp add: fresh_dashboard_def paid_then_unpaid_def render_card_def)
  have k: "0 < length (challans ?d)" "1 < length (challans ?d)"
    by (simp_all add: fresh_dashboard_def paid_then_unpaid_def)
  obtain p0 d0 w0 where c0: "click_pay (scripted_backend []) 0 (?d, ?w) = (p0, d0, w0)"
    by (cases "click_pay (scripted_backend []) 0 (?d, ?w)")
  obtain p1 d1 w1 where c1: "click_pay (scripted_backend []) 1 (?d, ?w) = (p1, d1, w1)"
    by (cases "click_pay (scripted_backend []) 1 (?d, ?w)")
  from pay_button_disabled_iff_paid [OF r k(1) c0] pay_button_disabled_iff_paid [OF r k(2) c1]
       r c0 c1
  show ?thesis by (simp add: fresh_dashboard_def paid_then_unpaid_def)
qed

section \<open>Properties of the authorization guard\<close>

text \<open>
  In the decisions of the specification, \<open>Children\<close> is Allow, \<open>Navigate ''/login''\<close> is
  RedirectLogin, and RedirectHome is \<open>Navigate ''/dashboard''\<close> in frontend-clean and
  \<open>Navigate ''/''\<close> in frontend-spa.
\<close>




text \<open>
  C7 (as amended). With the identity absent, the frontend-clean guard redirects to the login
  page for every token and every \<open>allowedRoles\<close>; the frontend-spa guard does so once
  loading is over, and shows the loading placeholder before.
\<close>

theorem guard_without_identity:
  assumes "\<not> truthy u"
  shows "ProtectedRoute a u rs = Navigate ''/login''
    \<and> ProtectedRoute_spa u False rs = Navigate ''/login''
    \<and> ProtectedRoute_spa u True rs = LoadingPlaceholder"
  using assms by (simp add: ProtectedRoute_def ProtectedRoute_spa_def isAuthenticated_def js_and_def)

theorem guard_without_identity_witness:
  "\<not> truthy JNull
   \<and> ProtectedRoute (JStr ''t'') JNull (Some [JStr ''officer'']) = Navigate ''/login''
   \<and> ProtectedRoute_spa JNull False (Some [JStr ''officer'']) = Navigate ''/login''
   \<and> ProtectedRoute_spa JNull True (Some [JStr ''officer'']) = LoadingPlaceholder"
proof -
  have h: "\<not> truthy JNull" by simp
  from guard_without_identity [OF h, of "JStr ''t''" "Some [JStr ''officer'']"] h
  show ?thesis by simp
qed

text \<open>
  C7 as stated fails in frontend-spa: before the provider's mount effect has run, the
  identity is absent and the guard renders the loading placeholder, not a redirect.
\<close>

theorem guard_loading_counterexample:
  "\<not> truthy JNull \<and> ProtectedRoute_spa JNull True None = LoadingPlaceholder
   \<and> ProtectedRoute_spa JNull True None \<noteq> Navigate ''/login''"
  by (simp add: ProtectedRoute_spa_def)

section \<open>Properties of the session store\<close>

subsection \<open>Restoring a malformed record\<close>

lemma restore_effect_malformed:
  assumes "localStorage br STORAGE_KEY = Some raw" and "malformed J raw"
  shows "restore_effect J br = None"
  using assms
  by (auto simp: restore_effect_def readStoredAuth_def malformed_def js_and_def Let_def
      split: option.splits)

lemma restore_effect_no_record:
  assumes "localStorage br STORAGE_KEY = None"
  shows "restore_effect J br = None"
  using assms by (simp add: restore_effect_def readStoredAuth_def js_and_def)

lemma first_effects:
  "token_effect initial_auth (persist_effect J initial_auth br)
     = br\<lparr>localStorage := (localStorage br)(STORAGE_KEY := None), api_accessToken := JNull\<rparr>"
  by (simp add: token_effect_def persist_effect_def initial_auth_def js_and_def js_or_def
      writeStoredAuth_def)

lemma spa_mount_unparseable:
  assumes "spa_localStorage sb ''access_token'' = Some token" and "token \<noteq> []"
    and "spa_localStorage sb ''user'' = Some userData" and "userData \<noteq> []"
    and "parse J userData = None"
  shows "spa_mount J sb =
      (\<lparr>spa_user = JNull, spa_loading = False\<rparr>,
       sb\<lparr>spa_localStorage := spa_purge (spa_localStorage sb)\<rparr>)"
  using assms by (simp add: spa_mount_def)

lemma spa_mount_incomplete:
  assumes "spa_localStorage sb ''access_token'' \<in> {None, Some []}
           \<or> spa_localStorage sb ''user'' \<in> {None, Some []}"
  shows "spa_mount J sb = (\<lparr>spa_user = JNull, spa_loading = False\<rparr>, sb)"
  using assms by (auto simp: spa_mount_def split: option.splits)

lemma spa_mount_parsed:
  assumes "spa_localStorage sb ''access_token'' = Some token" and "token \<noteq> []"
    and "spa_localStorage sb ''user'' = Some userData" and "userData \<noteq> []"
    and "parse J userData = Some u"
  shows "spa_mount J sb =
      (\<lparr>spa_user = u, spa_loading = False\<rparr>, sb\<lparr>authorization := Some (''Bearer '' @ token)\<rparr>)"
  using assms by (simp add: spa_mount_def)

lemma spa_mount_again: "spa_mount J (snd (spa_mount J sb)) = spa_mount J sb"
proof (cases "spa_localStorage sb ''access_token'' \<in> {None, Some []}
              \<or> spa_localStorage sb ''user'' \<in> {None, Some []}")
  case True
  from spa_mount_incomplete [OF True] show ?thesis by simp
next
  case False
  then obtain token userData where k: "spa_localStorage sb ''access_token'' = Some token"
    "token \<noteq> []" "spa_localStorage sb ''user'' = Some userData" "userData \<noteq> []"
    by auto
  show ?thesis
  proof (cases "parse J userData")
    case None
    let ?sb1 = "sb\<lparr>spa_localStorage := spa_purge (spa_localStorage sb)\<rparr>"
    have "spa_mount J ?sb1 = (\<lparr>spa_user = JNull, spa_loading = False\<rparr>, ?sb1)"
      by (rule spa_mount_incomplete) (simp add: spa_purge_def)
    with spa_mount_unparseable [OF k None] show ?thesis by simp
  next
    case (Some u)
    let ?sb1 = "sb\<lparr>authorization := Some (''Bearer '' @ token)\<rparr>"
    have "spa_mount J ?sb1 = (\<lparr>spa_user = u, spa_loading = False\<rparr>, ?sb1)"
      using spa_mount_parsed [of ?sb1 token userData J u] k Some by simp
    with spa_mount_parsed [OF k Some] show ?thesis by simp
  qed
qed

lemma spa_mount_malformed:
  assumes "spa_malformed J (spa_localStorage sb)"
  shows "\<not> truthy (spa_user (fst (spa_mount J sb))) \<and> \<not> spa_loading (fst (spa_mount J sb))"
  using assms
  by (auto simp: spa_malformed_def spa_mount_def split: option.splits)

lemma truncated_unreadable:
  "parse reference_JSON truncated_record = None"
  "parse reference_JSON (take 10 (json_text sample_user)) = None"
  "take 10 (json_text sample_user) \<noteq> []"
  by code_simp+

lemma null_readable: "parse reference_JSON ''null'' = Some JNull"
  by code_simp

text \<open>
  C5 (as amended). Restoring never throws (the SyntaxError of \<open>JSON.parse\<close> ends in a
  \<open>catch\<close> in both stores), and restoring a second time gives what the first gave. In
  frontend-clean, mounting the provider on a malformed record (its text is empty, does not
  parse, or parses to a value without a token or without a user) leaves the session absent
  and the record removed. In frontend-spa, mounting on a malformed split record (a key
  missing or empty, or a \<open>user\<close> text that does not parse or parses to no identity) leaves
  the identity absent, and: with the token or the \<open>user\<close> key missing or empty, the storage
  and the header are left as they are, so what is stored stays; with both stored and a
  \<open>user\<close> text that does not parse, the three keys are removed; with both stored and a
  \<open>user\<close> text that parses, also to no identity such as \<open>null\<close>, nothing is removed and the
  stored token becomes the \<open>Authorization\<close> header.
\<close>

theorem restore_of_malformed_record:
  "(localStorage br STORAGE_KEY = Some raw \<and> malformed J raw \<longrightarrow>
      AuthProvider_mount J br =
        (initial_auth,
         br\<lparr>localStorage := (localStorage br)(STORAGE_KEY := None), api_accessToken := JNull\<rparr>)
      \<and> AuthProvider_mount J (snd (AuthProvider_mount J br)) = AuthProvider_mount J br)
   \<and> (spa_malformed J (spa_localStorage sb) \<longrightarrow>
      \<not> truthy (spa_user (fst (spa_mount J sb))) \<and> \<not> spa_loading (fst (spa_mount J sb))
      \<and> spa_mount J (snd (spa_mount J sb)) = spa_mount J sb)
   \<and> (spa_localStorage sb ''access_token'' \<in> {None, Some []}
       \<or> spa_localStorage sb ''user'' \<in> {None, Some []} \<longrightarrow>
      spa_mount J sb = (\<lparr>spa_user = JNull, spa_loading = False\<rparr>, sb))
   \<and> (spa_localStorage sb ''access_token'' = Some token \<and> token \<noteq> []
       \<and> spa_localStorage sb ''user'' = Some userData \<and> userData \<noteq> []
       \<and> parse J userData = None \<longrightarrow>
      spa_mount J sb =
        (\<lparr>spa_user = JNull, spa_loading = False\<rparr>,
         sb\<lparr>spa_localStorage := spa_purge (spa_localStorage sb)\<rparr>))
   \<and> (spa_localStorage sb ''access_token'' = Some token \<and> token \<noteq> []
       \<and> spa_localStorage sb ''user'' = Some userData \<and> userData \<noteq> []
       \<and> parse J userData = Some u \<longrightarrow>
      spa_mount J sb =
        (\<lparr>spa_user = u, spa_loading = False\<rparr>,
         sb\<lparr>authorization := Some (''Bearer '' @ token)\<rparr>))"
proof (intro conjI impI)
  let ?br' = "br\<lparr>localStorage := (localStorage br)(STORAGE_KEY := None), api_accessToken := JNull\<rparr>"
  assume a: "localStorage br STORAGE_KEY = Some raw \<and> malformed J raw"
  then have r: "restore_effect J br = None"
    using restore_effect_malformed [of br raw J] by simp
  then show 1: "AuthProvider_mount J br = (initial_auth, ?br')"
    by (simp add: AuthProvider_mount_def first_effects)
  have "restore_effect J ?br' = None" by (rule restore_effect_no_record) simp
  then have "AuthProvider_mount J ?br' = (initial_auth, ?br')"
    by (simp add: AuthProvider_mount_def first_effects)
  with 1 show "AuthProvider_mount J (snd (AuthProvider_mount J br)) = AuthProvider_mount J br"
    by simp
next
  assume "spa_malformed J (spa_localStorage sb)"
  from spa_mount_malformed [OF this]
  show "\<not> truthy (spa_user (fst (spa_mount J sb)))" "\<not> spa_loading (fst (spa_mount J sb))"
    by simp_all
next
  show "spa_mount J (snd (spa_mount J sb)) = spa_mount J sb" by (rule spa_mount_again)
next
  assume "spa_localStorage sb ''access_token'' \<in> {None, Some []}
       \<or> spa_localStorage sb ''user'' \<in> {None, Some []}"
  then show "spa_mount J sb = (\<lparr>spa_user = JNull, spa_loading = False\<rparr>, sb)"
    by (rule spa_mount_incomplete)
next
  assume "spa_localStorage sb ''access_token'' = Some token \<and> token \<noteq> []
       \<and> spa_localStorage sb ''user'' = Some userData \<and> userData \<noteq> []
       \<and> parse J userData = None"
  then show "spa_mount J sb =
        (\<lparr>spa_user = JNull, spa_loading = False\<rparr>,
         sb\<lparr>spa_localStorage := spa_purge (spa_localStorage sb)\<rparr>)"
    using spa_mount_unparseable [of sb token userData J] by simp
next
  assume "spa_localStorage sb ''access_token'' = Some token \<and> token \<noteq> []
       \<and> spa_localStorage sb ''user'' = Some userData \<and> userData \<noteq> []
       \<and> parse J userData = Some u"
  then show "spa_mount J sb =
        (\<lparr>spa_user = u, spa_loading = False\<rparr>,
         sb\<lparr>authorization := Some (''Bearer '' @ token)\<rparr>)"
    using spa_mount_parsed [of sb token userData J u] by simp
qed

theorem restore_of_malformed_record_witness:
  "localStorage truncated_browser STORAGE_KEY = Some truncated_record
   \<and> malformed reference_JSON truncated_record
   \<and> spa_malformed reference_JSON (spa_localStorage spa_truncated_browser)
   \<and> spa_malformed reference_JSON (spa_localStorage spa_user_only_browser)
   \<and> spa_malformed reference_JSON (spa_localStorage spa_null_user_browser)
   \<and> AuthProvider_mount reference_JSON truncated_browser
       = (initial_auth, \<lparr>localStorage = Map.empty, api_accessToken = JNull\<rparr>)
   \<and> spa_mount reference_JSON spa_truncated_browser
       = (\<lparr>spa_user = JNull, spa_loading = False\<rparr>,
          \<lparr>spa_localStorage = Map.empty, authorization = None\<rparr>)
   \<and> spa_mount reference_JSON spa_user_only_browser
       = (\<lparr>spa_user = JNull, spa_loading = False\<rparr>, spa_user_only_browser)
   \<and> spa_mount reference_JSON spa_null_user_browser
       = (\<lparr>spa_user = JNull, spa_loading = False\<rparr>,
          spa_null_user_browser\<lparr>authorization := Some ''Bearer tok''\<rparr>)"
proof -
  let ?J = reference_JSON
  have h1: "localStorage truncated_browser STORAGE_KEY = Some truncated_record"
    by (simp add: truncated_browser_def)
  have h2: "malformed ?J truncated_record"
    by (simp add: malformed_def truncated_unreadable)
  have h3: "spa_localStorage spa_truncated_browser ''access_token'' = Some ''tok''" "''tok'' \<noteq> []"
    "spa_localStorage spa_truncated_browser ''user'' = Some (take 10 (json_text sample_user))"
    by (simp_all add: spa_truncated_browser_def)
  have h4: "spa_localStorage spa_user_only_browser ''access_token'' \<in> {None, Some []}
         \<or> spa_localStorage spa_user_only_browser ''user'' \<in> {None, Some []}"
    by (simp add: spa_user_only_browser_def)
  have h5: "spa_localStorage spa_null_user_browser ''access_token'' = Some ''tok''"
    "spa_localStorage spa_null_user_browser ''user'' = Some ''null''" "''null'' \<noteq> []"
    by (simp_all add: spa_null_user_browser_def)
  have m: "spa_malformed ?J (spa_localStorage spa_truncated_browser)"
    "spa_malformed ?J (spa_localStorage spa_user_only_browser)"
    "spa_malformed ?J (spa_localStorage spa_null_user_browser)"
    by (simp_all add: spa_malformed_def spa_truncated_browser_def spa_user_only_browser_def
        spa_null_user_browser_def truncated_unreadable null_readable)
  have e1: "truncated_browser\<lparr>localStorage := (localStorage truncated_browser)(STORAGE_KEY := None),
              api_accessToken := JNull\<rparr> = \<lparr>localStorage = Map.empty, api_accessToken = JNull\<rparr>"
    by (simp add: truncated_browser_def)
  have e2: "spa_truncated_browser\<lparr>spa_localStorage := spa_purge (spa_localStorage spa_truncated_browser)\<rparr>
      = \<lparr>spa_localStorage = Map.empty, authorization = None\<rparr>"
    by (simp add: spa_truncated_browser_def spa_purge_def)
  note T1 = restore_of_malformed_record [of truncated_browser truncated_record ?J
         spa_truncated_browser "''tok''" "take 10 (json_text sample_user)" JNull]
  note T2 = restore_of_malformed_record [of truncated_browser truncated_record ?J
         spa_user_only_browser "''tok''" "''null''" JNull]
  note T3 = restore_of_malformed_record [of truncated_browser truncated_record ?J
         spa_null_user_browser "''tok''" "''null''" JNull]
  have a: "AuthProvider_mount ?J truncated_browser =
        (initial_auth,
         truncated_browser\<lparr>localStorage := (localStorage truncated_browser)(STORAGE_KEY := None),
           api_accessToken := JNull\<rparr>)"
    using T1 h1 h2 by blast
  have b: "spa_mount ?J spa_truncated_browser =
        (\<lparr>spa_user = JNull, spa_loading = False\<rparr>,
         spa_truncated_browser\<lparr>spa_localStorage := spa_purge (spa_localStorage spa_truncated_browser)\<rparr>)"
    using T1 h3 truncated_unreadable(2,3) by blast
  have c: "spa_mount ?J spa_user_only_browser
       = (\<lparr>spa_user = JNull, spa_loading = False\<rparr>, spa_user_only_browser)"
    using T2 h4 by blast
  have d: "spa_mount ?J spa_null_user_browser
       = (\<lparr>spa_user = JNull, spa_loading = False\<rparr>,
          spa_null_user_browser\<lparr>authorization := Some (''Bearer '' @ ''tok'')\<rparr>)"
    using T3 h5 null_readable by blast
  from a b c d h1 h2 m show ?thesis
    unfolding e1 e2 by simp
qed

text \<open>
  C5 as stated fails in frontend-spa. A stored \<open>user\<close> without an \<open>access_token\<close> (the
  credential is missing) gives an absent session, and the \<open>user\<close> text is still stored
  after the mount. A stored token beside the \<open>user\<close> text \<open>null\<close> (the identity is missing)
  gives no identity, but the token becomes the header and both keys are still stored.
\<close>

theorem restore_keeps_incomplete_record_counterexample:
  "spa_localStorage spa_user_only_browser ''access_token'' = None
   \<and> spa_user (fst (spa_mount reference_JSON spa_user_only_browser)) = JNull
   \<and> spa_localStorage (snd (spa_mount reference_JSON spa_user_only_browser)) ''user''
       = Some (json_text sample_user)
   \<and> spa_user (fst (spa_mount reference_JSON spa_null_user_browser)) = JNull
   \<and> authorization (snd (spa_mount reference_JSON spa_null_user_browser)) = Some ''Bearer tok''
   \<and> spa_localStorage (snd (spa_mount reference_JSON spa_null_user_browser)) ''user''
       = Some ''null''"
  using null_readable
  by (simp add: spa_mount_def spa_user_only_browser_def spa_null_user_browser_def)

subsection \<open>What every reachable session satisfies\<close>

lemma same_value_zero_eq: "same_value_zero a b \<Longrightarrow> a = b"
  by (cases a) auto

lemma truthy_js_and [simp]: "truthy (js_and a b) = (truthy a \<and> truthy b)"
  by (simp add: js_and_def)

lemma js_or_vehicle: "v = JStr [] \<or> truthy v \<Longrightarrow> js_or v (JStr []) = v"
  by (auto simp: js_or_def)

lemma js_or_vehicle_ok: "js_or v (JStr []) = JStr [] \<or> truthy (js_or v (JStr []))"
  by (auto simp: js_or_def)

lemma persist_effect_storage:
  "localStorage (persist_effect J st br) STORAGE_KEY =
     (if truthy (accessToken st) \<and> truthy (user st)
      then Some (stringify J (stored_record st)) else None)"
  by (simp add: persist_effect_def writeStoredAuth_def stored_record_def)

lemma token_effect_storage [simp]: "localStorage (token_effect st br) = localStorage br"
  by (simp add: token_effect_def)

lemma commit_state [simp]: "fst (commit J old new br) = new"
  by (simp add: commit_def Let_def)

lemma commit_kept:
  assumes "kept_in_sync J (old, br)"
    and "vehicleNumber new = JStr [] \<or> truthy (vehicleNumber new)"
  shows "kept_in_sync J (commit J old new br)"
proof (cases "changed (accessToken new) (accessToken old) \<or> changed (user new) (user old)
                \<or> changed (vehicleNumber new) (vehicleNumber old)")
  case True
  then have "localStorage (snd (commit J old new br)) = localStorage (persist_effect J new br)"
    by (auto simp: commit_def Let_def)
  with assms(2) show ?thesis
    by (simp add: kept_in_sync_def persist_effect_storage)
next
  case False
  then have "accessToken new = accessToken old" "user new = user old"
    "vehicleNumber new = vehicleNumber old"
    by (auto simp: changed_def dest: same_value_zero_eq)
  then have "new = old" by simp
  with False assms(1) show ?thesis by (simp add: commit_def Let_def)
qed

lemma restore_effect_Some:
  assumes "restore_effect J br = Some st"
  shows "truthy (accessToken st) \<and> truthy (user st)
         \<and> (vehicleNumber st = JStr [] \<or> truthy (vehicleNumber st))"
  using assms js_or_vehicle_ok [of "opt_prop (readStoredAuth J (localStorage br)) ''vehicleNumber''"]
  by (auto simp: restore_effect_def Let_def split: if_splits)

lemma mount_first_kept: "kept_in_sync J (initial_auth, token_effect initial_auth (persist_effect J initial_auth br))"
  by (simp add: kept_in_sync_def persist_effect_storage) (simp add: initial_auth_def)

lemma mount_kept: "kept_in_sync J (AuthProvider_mount J br)"
proof (cases "restore_effect J br")
  case None
  with mount_first_kept show ?thesis by (simp add: AuthProvider_mount_def)
next
  case (Some st)
  from commit_kept [OF mount_first_kept] restore_effect_Some [OF Some] Some
  show ?thesis by (simp add: AuthProvider_mount_def)
qed

lemma mount_together: "set_together (fst (AuthProvider_mount J br))"
proof (cases "restore_effect J br")
  case None
  then show ?thesis by (simp add: AuthProvider_mount_def set_together_def initial_auth_def)
next
  case (Some st)
  with restore_effect_Some [OF Some] show ?thesis
    by (simp add: AuthProvider_mount_def set_together_def)
qed

lemma login_kept:
  assumes "kept_in_sync J (st, br)"
  shows "kept_in_sync J (snd (login J payload opts (st, br)))"
proof -
  from assms have v: "vehicleNumber st = JStr [] \<or> truthy (vehicleNumber st)"
    by (simp add: kept_in_sync_def)
  show ?thesis
    using assms v by (auto simp: login_def Let_def intro!: commit_kept)
qed

lemma login_state:
  "fst (snd (login J payload opts (st, br))) =
     (if nullish payload then st
      else st\<lparr>accessToken := opt_prop payload ''access_token'',
              user := opt_prop payload ''user'',
              vehicleNumber := (if truthy (opt_prop opts ''vehicleNumber'')
                                then opt_prop opts ''vehicleNumber'' else vehicleNumber st)\<rparr>)"
  by (cases opts) (auto simp: login_def Let_def)

lemma logout_kept: "kept_in_sync J (st, br) \<Longrightarrow> kept_in_sync J (logout J (st, br))"
  by (auto simp: logout_def intro!: commit_kept) (simp add: initial_auth_def)

lemma step_kept: "kept_in_sync J sb \<Longrightarrow> kept_in_sync J (auth_step J sb op)"
  by (cases sb; cases op) (simp_all add: mount_kept login_kept logout_kept)

lemma run_kept: "kept_in_sync J sb \<Longrightarrow> kept_in_sync J (auth_run J ops sb)"
  unfolding auth_run_def by (induction ops arbitrary: sb) (simp_all add: step_kept)

lemma carries_both_not_nullish:
  "truthy (opt_prop payload k) \<Longrightarrow> \<not> nullish payload"
  by (cases payload) (auto simp: nullish_def)

lemma step_together:
  assumes "set_together (fst sb)" and "carries_both op"
  shows "set_together (fst (auth_step J sb op))"
proof (cases sb)
  case (Pair st br)
  show ?thesis
  proof (cases op)
    case Reload
    with Pair show ?thesis by (simp add: mount_together)
  next
    case (Login payload opts)
    with assms(2) have "truthy (opt_prop payload ''access_token'')" "truthy (opt_prop payload ''user'')"
      by simp_all
    with Pair Login carries_both_not_nullish [of payload] show ?thesis
      by (simp add: login_state set_together_def)
  next
    case Logout
    with Pair show ?thesis by (simp add: logout_def set_together_def initial_auth_def)
  qed
qed

lemma run_together:
  "set_together (fst sb) \<Longrightarrow> list_all carries_both ops \<Longrightarrow> set_together (fst (auth_run J ops sb))"
  unfolding auth_run_def by (induction ops arbitrary: sb) (simp_all add: step_together)

lemma spa_mount_kept:
  assumes "spa_storage_ok J (spa_localStorage br)" and "authorization br = None"
    and "case spa_localStorage br ''access_token'' of None \<Rightarrow> True | Some t \<Rightarrow> t \<in> set ts"
  shows "spa_kept J ts (spa_mount J br)"
  using assms
  by (auto simp: spa_kept_def spa_mount_def spa_set_together_def spa_storage_ok_def spa_purge_def
      list_ex_iff split: option.splits)

lemma spa_step_kept:
  assumes "spa_kept J ts sb" and "spa_carries_both J op" and "set (login_token op) \<subseteq> set ts"
  shows "spa_kept J ts (spa_step J sb op)"
proof (cases sb)
  case (Pair st br)
  show ?thesis
  proof (cases op)
    case SpaReload
    from assms(1) Pair have "spa_kept J ts (spa_mount J (br\<lparr>authorization := None\<rparr>))"
      by (intro spa_mount_kept) (simp_all add: spa_kept_def)
    with Pair SpaReload show ?thesis by simp
  next
    case (SpaLogin response)
    show ?thesis
    proof (cases response)
      case (Inl err)
      with Pair SpaLogin assms(1) show ?thesis by (simp add: spa_login_def)
    next
      case (Inr data)
      with SpaLogin assms(2) have u: "truthy (opt_prop data ''user'')"
        "parse J (stringify J (opt_prop data ''user'')) = Some (opt_prop data ''user'')"
        and t: "is_string (opt_prop data ''access_token'')" "truthy (opt_prop data ''access_token'')"
        by simp_all
      from t obtain tok where tok: "opt_prop data ''access_token'' = JStr tok" "tok \<noteq> []"
        by (cases "opt_prop data ''access_token''") auto
      with SpaLogin Inr assms(3) have mem: "tok \<in> set ts" by simp
      from u(1) have "\<not> nullish data" by (rule carries_both_not_nullish)
      moreover from u(1) have "opt_prop data ''user'' \<noteq> JUndefined" by auto
      ultimately show ?thesis using Pair SpaLogin Inr u tok mem
        by (auto simp: spa_login_def Let_def spa_kept_def spa_set_together_def spa_storage_ok_def
            list_ex_iff)
    qed
  next
    case SpaLogout
    with Pair show ?thesis
      by (simp add: spa_logout_def spa_kept_def spa_set_together_def spa_storage_ok_def spa_purge_def)
  qed
qed

lemma spa_run_kept:
  "spa_kept J ts sb \<Longrightarrow> list_all (spa_carries_both J) ops \<Longrightarrow>
     set (concat (map login_token ops)) \<subseteq> set ts \<Longrightarrow> spa_kept J ts (spa_run J ops sb)"
  unfolding spa_run_def by (induction ops arbitrary: sb) (simp_all add: spa_step_kept)

text \<open>
  C8 (as amended). The state of the first render has the credential and the identity both
  absent. In frontend-clean, from any storage at all, every state reached through page
  loads, logins whose response carries a token and a user, and logouts has them both
  absent or both present. In frontend-spa, from any storage whose \<open>user\<close> text, if it
  parses, parses to an identity, every state reached through page loads, logins whose
  response carries a token (a non-empty string) and a user that \<open>JSON\<close> reads back, failed
  logins and logouts has them both absent (no user, no header) or both present (a user,
  and the header \<open>Bearer\<close> followed by a token the session was given).
\<close>

theorem credential_and_identity_together:
  "set_together initial_auth
   \<and> (list_all carries_both ops \<longrightarrow>
        set_together (fst (auth_run J ops (AuthProvider_mount J br0))))
   \<and> spa_set_together [] (spa_initial, sb0\<lparr>authorization := None\<rparr>)
   \<and> (list_all (spa_carries_both J) sops \<and> spa_storage_ok J (spa_localStorage sb0) \<longrightarrow>
        spa_set_together (spa_tokens (spa_localStorage sb0) sops)
          (spa_run J sops (spa_mount J (sb0\<lparr>authorization := None\<rparr>))))"
proof (intro conjI impI)
  show "set_together initial_auth" by (simp add: set_together_def initial_auth_def)
next
  assume "list_all carries_both ops"
  with mount_together show "set_together (fst (auth_run J ops (AuthProvider_mount J br0)))"
    by (rule run_together)
next
  show "spa_set_together [] (spa_initial, sb0\<lparr>authorization := None\<rparr>)"
    by (simp add: spa_set_together_def spa_initial_def)
next
  let ?ts = "spa_tokens (spa_localStorage sb0) sops"
  assume a: "list_all (spa_carries_both J) sops \<and> spa_storage_ok J (spa_localStorage sb0)"
  then have "spa_kept J ?ts (spa_mount J (sb0\<lparr>authorization := None\<rparr>))"
    by (intro spa_mount_kept) (auto simp: spa_tokens_def split: option.splits)
  moreover have "set (concat (map login_token sops)) \<subseteq> set ?ts"
    by (auto simp: spa_tokens_def)
  ultimately have "spa_kept J ?ts (spa_run J sops (spa_mount J (sb0\<lparr>authorization := None\<rparr>)))"
    using a by (intro spa_run_kept) simp_all
  then show "spa_set_together ?ts (spa_run J sops (spa_mount J (sb0\<lparr>authorization := None\<rparr>)))"
    by (simp add: spa_kept_def)
qed

theorem credential_and_identity_together_witness:
  "list_all carries_both sample_ops
   \<and> list_all (spa_carries_both reference_JSON) spa_sample_ops
   \<and> spa_storage_ok reference_JSON (spa_localStorage spa_empty_browser)
   \<and> spa_tokens (spa_localStorage spa_empty_browser) spa_sample_ops = [''tok'', ''tok2'']
   \<and> set_together (fst (auth_run reference_JSON sample_ops
        (AuthProvider_mount reference_JSON empty_browser)))
   \<and> spa_set_together [''tok'', ''tok2''] (spa_run reference_JSON spa_sample_ops
        (spa_mount reference_JSON (spa_empty_browser\<lparr>authorization := None\<rparr>)))"
proof -
  have h1: "list_all carries_both sample_ops"
    by (simp add: sample_ops_def sample_response_def other_response_def sample_user_def other_user_def)
  have h2: "list_all (spa_carries_both reference_JSON) spa_sample_ops"
    by code_simp
  have h3: "spa_storage_ok reference_JSON (spa_localStorage spa_empty_browser)"
    by (simp add: spa_storage_ok_def spa_empty_browser_def)
  have h4: "spa_tokens (spa_localStorage spa_empty_browser) spa_sample_ops = [''tok'', ''tok2'']"
    by (simp add: spa_tokens_def spa_empty_browser_def spa_sample_ops_def sample_response_def
        other_response_def)
  from credential_and_identity_together
         [of sample_ops reference_JSON empty_browser spa_empty_browser spa_sample_ops] h1 h2 h3 h4
  show ?thesis by simp
qed

text \<open>
  C8 as stated fails. In frontend-clean a login whose response carries a token and no user
  leaves the token set and the identity absent: \<open>login\<close> stores what it is given. In
  frontend-spa a page load on a stored token beside the \<open>user\<close> text \<open>null\<close> installs the
  header and leaves the identity absent.
\<close>

theorem credential_without_identity_counterexample:
  "accessToken (fst (auth_run reference_JSON [Login token_only_response JUndefined]
       (AuthProvider_mount reference_JSON empty_browser))) = JStr ''t''
   \<and> user (fst (auth_run reference_JSON [Login token_only_response JUndefined]
       (AuthProvider_mount reference_JSON empty_browser))) = JUndefined
   \<and> spa_user (fst (spa_run reference_JSON [SpaReload] (spa_initial, spa_null_user_browser)))
       = JNull
   \<and> authorization (snd (spa_run reference_JSON [SpaReload] (spa_initial, spa_null_user_browser)))
       = Some ''Bearer tok''"
proof -
  obtain st br where m: "AuthProvider_mount reference_JSON empty_browser = (st, br)"
    by (cases "AuthProvider_mount reference_JSON empty_browser")
  have 1: "fst (auth_run reference_JSON [Login token_only_response JUndefined]
       (AuthProvider_mount reference_JSON empty_browser))
     = st\<lparr>accessToken := JStr ''t'', user := JUndefined\<rparr>"
    using login_state [of reference_JSON token_only_response JUndefined st br]
    by (simp add: m auth_run_def token_only_response_def nullish_def)
  have 2: "spa_run reference_JSON [SpaReload] (spa_initial, spa_null_user_browser)
     = (\<lparr>spa_user = JNull, spa_loading = False\<rparr>,
        spa_null_user_browser\<lparr>authorization := Some ''Bearer tok''\<rparr>)"
    using null_readable
    by (simp add: spa_run_def spa_mount_def spa_null_user_browser_def)
  from 1 2 show ?thesis by simp
qed

subsection \<open>Logging in, then loading the page\<close>

lemma login_result:
  assumes "\<not> nullish payload" and "opts \<noteq> JNull"
  shows "fst (login J payload opts sb) = Inr ()"
  using assms by (cases sb) (simp add: login_def Let_def)

lemma mount_reads_back:
  assumes "kept_in_sync J (st, br)" and "truthy (accessToken st)" and "truthy (user st)"
    and "stringify J (stored_record st) \<noteq> []"
    and "parse J (stringify J (stored_record st)) = Some (stored_record st)"
  shows "fst (AuthProvider_mount J (br\<lparr>api_accessToken := t\<rparr>)) = st"
proof -
  from assms(1-3) have ls: "localStorage br STORAGE_KEY = Some (stringify J (stored_record st))"
    and v: "vehicleNumber st = JStr [] \<or> truthy (vehicleNumber st)"
    by (simp_all add: kept_in_sync_def)
  from ls assms(4,5) have "readStoredAuth J (localStorage (br\<lparr>api_accessToken := t\<rparr>)) = stored_record st"
    by (simp add: readStoredAuth_def)
  with assms(2,3) js_or_vehicle [OF v]
  have "restore_effect J (br\<lparr>api_accessToken := t\<rparr>) = Some st"
    by (simp add: restore_effect_def stored_record_def)
  then show ?thesis by (simp add: AuthProvider_mount_def)
qed

lemma auth_step_Login: "auth_step J sb (Login payload opts) = snd (login J payload opts sb)"
  by (cases sb) simp

lemma reference_reads_sample:
  "stringify reference_JSON (stored_record sample_session) \<noteq> []"
  "parse reference_JSON (stringify reference_JSON (stored_record sample_session))
     = Some (stored_record sample_session)"
  "stringify reference_JSON (stored_record other_session) \<noteq> []"
  "parse reference_JSON (stringify reference_JSON (stored_record other_session))
     = Some (stored_record other_session)"
  by code_simp+

lemma sample_login_state:
  "fst (snd (login J sample_response (with_vehicle ''KA01AB1234'') (st, br))) = sample_session"
  by (simp add: login_state sample_response_def with_vehicle_def sample_session_def nullish_def)

text \<open>
  C6 (as amended). In any reachable state of frontend-clean, a login whose response
  carries a token and a user (both truthy, which is how the store itself tests presence)
  and whose record \<open>JSON\<close> reads back, followed by a page load, yields that token and that
  user, and the vehicle number given with the login; when none was given, the vehicle
  number the session held before the login.
\<close>

theorem session_round_trip:
  assumes "truthy (opt_prop payload ''access_token'')" and "truthy (opt_prop payload ''user'')"
    and "opts \<noteq> JNull"
    and "login J payload opts (auth_run J ops (AuthProvider_mount J br0)) = (p, st', br')"
    and "stringify J (stored_record st') \<noteq> []"
    and "parse J (stringify J (stored_record st')) = Some (stored_record st')"
  shows "p = Inr ()
    \<and> accessToken st' = opt_prop payload ''access_token''
    \<and> user st' = opt_prop payload ''user''
    \<and> vehicleNumber st' =
        (if truthy (opt_prop opts ''vehicleNumber'') then opt_prop opts ''vehicleNumber''
         else vehicleNumber (fst (auth_run J ops (AuthProvider_mount J br0))))
    \<and> fst (AuthProvider_mount J (br'\<lparr>api_accessToken := JNull\<rparr>)) = st'"
proof -
  obtain st br where prior: "auth_run J ops (AuthProvider_mount J br0) = (st, br)"
    by (cases "auth_run J ops (AuthProvider_mount J br0)")
  have k: "kept_in_sync J (st, br)"
    using run_kept [OF mount_kept, of J ops br0] prior by simp
  have nn: "\<not> nullish payload" using assms(1) by (rule carries_both_not_nullish)
  from login_result [OF nn assms(3), of J "(st, br)"] assms(4) prior have p: "p = Inr ()" by simp
  from login_state [of J payload opts st br] assms(4) prior nn
  have st': "st' = st\<lparr>accessToken := opt_prop payload ''access_token'',
              user := opt_prop payload ''user'',
              vehicleNumber := (if truthy (opt_prop opts ''vehicleNumber'')
                                then opt_prop opts ''vehicleNumber'' else vehicleNumber st)\<rparr>"
    by simp
  from login_kept [OF k, of payload opts] assms(4) prior have k': "kept_in_sync J (st', br')" by simp
  have "fst (AuthProvider_mount J (br'\<lparr>api_accessToken := JNull\<rparr>)) = st'"
    using assms(1,2) st' by (intro mount_reads_back [OF k' _ _ assms(5,6)]) simp_all
  with p st' prior show ?thesis by simp
qed

theorem session_round_trip_witness:
  "truthy (opt_prop sample_response ''access_token'')
   \<and> truthy (opt_prop sample_response ''user'')
   \<and> with_vehicle ''KA01AB1234'' \<noteq> JNull
   \<and> fst (snd (login reference_JSON sample_response (with_vehicle ''KA01AB1234'')
         (auth_run reference_JSON [] (AuthProvider_mount reference_JSON empty_browser))))
       = sample_session
   \<and> fst (AuthProvider_mount reference_JSON
        (snd (snd (login reference_JSON sample_response (with_vehicle ''KA01AB1234'')
           (auth_run reference_JSON [] (AuthProvider_mount reference_JSON empty_browser))))
         \<lparr>api_accessToken := JNull\<rparr>))
       = sample_session"
proof -
  let ?prior = "auth_run reference_JSON [] (AuthProvider_mount reference_JSON empty_browser)"
  obtain p st' br' where run:
    "login reference_JSON sample_response (with_vehicle ''KA01AB1234'') ?prior = (p, st', br')"
    by (cases "login reference_JSON sample_response (with_vehicle ''KA01AB1234'') ?prior")
  have st': "st' = sample_session"
    using sample_login_state [of reference_JSON "fst ?prior" "snd ?prior"] run by simp
  have h: "truthy (opt_prop sample_response ''access_token'')"
    "truthy (opt_prop sample_response ''user'')" "with_vehicle ''KA01AB1234'' \<noteq> JNull"
    by (simp_all add: sample_response_def sample_user_def with_vehicle_def)
  from session_round_trip [OF h run reference_reads_sample(1,2) [folded st']] h run st'
  show ?thesis by simp
qed

text \<open>
  C6 as stated fails: a login with no vehicle number over a session that has one keeps it,
  and the page load restores it, though the login set none.
\<close>

theorem session_round_trip_counterexample:
  "opt_prop (with_vehicle []) ''vehicleNumber'' = JUndefined
   \<and> fst (AuthProvider_mount reference_JSON
        (snd (snd (login reference_JSON other_response (with_vehicle [])
           (auth_run reference_JSON [Login sample_response (with_vehicle ''KA01AB1234'')]
              (AuthProvider_mount reference_JSON empty_browser))))
         \<lparr>api_accessToken := JNull\<rparr>))
       = \<lparr>accessToken = JStr ''tok2'', user = other_user, vehicleNumber = JStr ''KA01AB1234''\<rparr>"
proof -
  let ?J = reference_JSON
  let ?prior = "auth_run ?J [Login sample_response (with_vehicle ''KA01AB1234'')]
                  (AuthProvider_mount ?J empty_browser)"
  obtain st br where prior: "?prior = (st, br)" by (cases ?prior)
  have k: "kept_in_sync ?J (st, br)"
    using run_kept [OF mount_kept, of ?J "[Login sample_response (with_vehicle ''KA01AB1234'')]" empty_browser]
      prior by simp
  have "fst ?prior = sample_session"
    by (simp add: auth_run_def auth_step_Login)
       (metis sample_login_state surjective_pairing)
  with prior have st: "st = sample_session" by simp
  obtain p st' br' where run: "login ?J other_response (with_vehicle []) (st, br) = (p, st', br')"
    by (cases "login ?J other_response (with_vehicle []) (st, br)")
  from login_state [of ?J other_response "with_vehicle []" st br] run st
  have st': "st' = other_session"
    by (simp add: other_response_def with_vehicle_def nullish_def other_session_def sample_session_def)
  from login_kept [OF k, of other_response "with_vehicle []"] run
  have k': "kept_in_sync ?J (st', br')" by simp
  have "fst (AuthProvider_mount ?J (br'\<lparr>api_accessToken := JNull\<rparr>)) = st'"
    using reference_reads_sample(3,4) st'
    by (intro mount_reads_back [OF k']) (simp_all add: other_session_def other_user_def)
  with st' prior run show ?thesis
    by (simp add: other_session_def with_vehicle_def)
qed

end
